theory Spec2Isabelle
  imports Main "HOL-Library.AList" "HOL-Library.Multiset"
begin

unbundle bit_operations_syntax

section \<open>Harmonia: the RFC action ledger and its workflow\<close>

text \<open>
  A shallow embedding of \<^verbatim>\<open>src/models/base.go\<close> (RFC, Action, Target and their
  methods), of the controllers \<^verbatim>\<open>SubmitRequest\<close> and \<^verbatim>\<open>ReviewRequest\<close>, and of
  \<^verbatim>\<open>GitHub.GetMergeability\<close>.

  Conventions.
  \<^item> A Go \<^verbatim>\<open>string\<close> is a \<open>string\<close> (a list of bytes).
  \<^item> A Go slice is a \<open>list option\<close>: \<open>None\<close> is the nil slice, which
    \<^verbatim>\<open>range\<close> treats as empty, \<^verbatim>\<open>append\<close> turns into a slice, and
    \<^verbatim>\<open>json.Marshal\<close> prints as \<^verbatim>\<open>null\<close>.
  \<^item> A Go map is an association list with distinct keys, optional where the code can meet
    the nil map (\<open>None\<close>): reading a nil map finds nothing, writing to it panics.
  \<^item> \<^verbatim>\<open>Actions\<close> is a slice of pointers. An entry is \<open>Some a\<close>, a pointer to the
    action \<open>a\<close>, or \<open>None\<close>, the nil pointer (\<^verbatim>\<open>json.Unmarshal\<close> stores one for a
    JSON \<^verbatim>\<open>null\<close> in the array). The pointers of one RFC that are not nil are distinct
    (they come from \<^verbatim>\<open>json.Unmarshal\<close> or from \<^verbatim>\<open>append(..., &action)\<close> on a fresh
    copy), so a mutation through a pointer is the replacement of that list element; reading
    or writing a field through the nil pointer panics.
  \<^item> A Go \<^verbatim>\<open>error\<close> result is an \<open>error option\<close> or a sum \<open>error + 'a\<close>; a panic is
    the separate outcome \<open>Panics\<close>. A method that changes its receiver returns the
    receiver as it leaves it, also when it panics.
\<close>


section \<open>crypto/sha256\<close>

text \<open>
  SHA-256 (FIPS 180-4) on 32-bit words, held as natural numbers below \<open>2^32\<close> with the
  wrap-around of every addition and rotation written out.
\<close>

type_synonym u32 = nat

definition add32 :: "u32 \<Rightarrow> u32 \<Rightarrow> u32" where
  "add32 x y = (x + y) mod 4294967296"

definition rotr :: "nat \<Rightarrow> u32 \<Rightarrow> u32" where
  "rotr n x = (drop_bit n x OR push_bit (32 - n) x) mod 4294967296"

definition not32 :: "u32 \<Rightarrow> u32" where
  "not32 x = x XOR 4294967295"

definition Ch :: "u32 \<Rightarrow> u32 \<Rightarrow> u32 \<Rightarrow> u32" where
  "Ch x y z = (x AND y) XOR (not32 x AND z)"

definition Maj :: "u32 \<Rightarrow> u32 \<Rightarrow> u32 \<Rightarrow> u32" where
  "Maj x y z = (x AND y) XOR (x AND z) XOR (y AND z)"

definition bsig0 :: "u32 \<Rightarrow> u32" where
  "bsig0 x = rotr 2 x XOR rotr 13 x XOR rotr 22 x"

definition bsig1 :: "u32 \<Rightarrow> u32" where
  "bsig1 x = rotr 6 x XOR rotr 11 x XOR rotr 25 x"

definition ssig0 :: "u32 \<Rightarrow> u32" where
  "ssig0 x = rotr 7 x XOR rotr 18 x XOR drop_bit 3 x"

definition ssig1 :: "u32 \<Rightarrow> u32" where
  "ssig1 x = rotr 17 x XOR rotr 19 x XOR drop_bit 10 x"

definition K256 :: "u32 list" where
  "K256 = [
  1116352408, 1899447441, 3049323471, 3921009573, 961987163, 1508970993, 2453635748, 2870763221,
  3624381080, 310598401, 607225278, 1426881987, 1925078388, 2162078206, 2614888103, 3248222580,
  3835390401, 4022224774, 264347078, 604807628, 770255983, 1249150122, 1555081692, 1996064986,
  2554220882, 2821834349, 2952996808, 3210313671, 3336571891, 3584528711, 113926993, 338241895,
  666307205, 773529912, 1294757372, 1396182291, 1695183700, 1986661051, 2177026350, 2456956037,
  2730485921, 2820302411, 3259730800, 3345764771, 3516065817, 3600352804, 4094571909, 275423344,
  430227734, 506948616, 659060556, 883997877, 958139571, 1322822218, 1537002063, 1747873779,
  1955562222, 2024104815, 2227730452, 2361852424, 2428436474, 2756734187, 3204031479, 3329325298]"

definition H256 :: "u32 list" where
  "H256 = [1779033703, 3144134277, 1013904242, 2773480762,
           1359893119, 2600822924, 528734635, 1541459225]"

text \<open>
  The message schedule, newest word first: \<open>schedule n\<close> extends the sixteen words of a
  block (reversed) by \<open>n\<close> further words.
\<close>

fun schedule :: "nat \<Rightarrow> u32 list \<Rightarrow> u32 list" where
  "schedule 0 ws = ws"
| "schedule (Suc n) ws =
     schedule n (add32 (add32 (add32 (ssig1 (ws ! 1)) (ws ! 6)) (ssig0 (ws ! 14))) (ws ! 15) # ws)"

fun step :: "u32 list \<Rightarrow> u32 \<Rightarrow> u32 \<Rightarrow> u32 list" where
  "step [a, b, c, d, e, f, g, h] k w =
     (let t1 = add32 (add32 (add32 (add32 h (bsig1 e)) (Ch e f g)) k) w;
          t2 = add32 (bsig0 a) (Maj a b c)
      in [add32 t1 t2, a, b, c, add32 d t1, e, f, g])"
| "step st _ _ = st"

fun rounds :: "u32 list \<Rightarrow> u32 list \<Rightarrow> u32 list \<Rightarrow> u32 list" where
  "rounds st (k # ks) (w # ws) = rounds (step st k w) ks ws"
| "rounds st _ _ = st"

definition compress :: "u32 list \<Rightarrow> u32 list \<Rightarrow> u32 list" where
  "compress hs blk = map2 add32 hs (rounds hs K256 (rev (schedule 48 (rev blk))))"

fun be32 :: "nat list \<Rightarrow> u32" where
  "be32 [a, b, c, d] = ((a * 256 + b) * 256 + c) * 256 + d"
| "be32 _ = 0"

fun chunks :: "nat \<Rightarrow> 'a list \<Rightarrow> 'a list list" where
  "chunks n [] = []"
| "chunks n (x # xs) =
     (if n = 0 then [x # xs] else take n (x # xs) # chunks n (drop n (x # xs)))"

definition be64 :: "nat \<Rightarrow> nat list" where
  "be64 n = [n div 2 ^ 56 mod 256, n div 2 ^ 48 mod 256, n div 2 ^ 40 mod 256,
             n div 2 ^ 32 mod 256, n div 2 ^ 24 mod 256, n div 2 ^ 16 mod 256,
             n div 2 ^ 8 mod 256, n mod 256]"

definition pad :: "nat list \<Rightarrow> nat list" where
  "pad m = (let l = length m
            in m @ [0x80] @ replicate ((119 - l mod 64) mod 64) 0 @ be64 (8 * l))"

definition sha256 :: "nat list \<Rightarrow> u32 list" where
  "sha256 m = foldl compress H256 (map (map be32 \<circ> chunks 4) (chunks 64 (pad m)))"

definition hexdigit :: "nat \<Rightarrow> char" where
  "hexdigit n = ''0123456789abcdef'' ! (n mod 16)"

definition hex32 :: "u32 \<Rightarrow> string" where
  "hex32 w = [hexdigit (w div 2 ^ 28), hexdigit (w div 2 ^ 24), hexdigit (w div 2 ^ 20),
              hexdigit (w div 2 ^ 16), hexdigit (w div 2 ^ 12), hexdigit (w div 2 ^ 8),
              hexdigit (w div 2 ^ 4), hexdigit w]"

text \<open>\<^verbatim>\<open>fmt.Sprintf("%x", h.Sum(nil))\<close>: the digest in lower-case hexadecimal.\<close>

definition sha256_hex :: "string \<Rightarrow> string" where
  "sha256_hex s = concat (map hex32 (sha256 (map of_char s)))"


section \<open>encoding/json, as the models use it\<close>

text \<open>
  A value held in \<^verbatim>\<open>map[string]interface{}\<close>. After \<^verbatim>\<open>json.Unmarshal\<close> it is nil, a
  bool, a float64, a string, a slice or a map. A float64 is carried as the text the encoder
  prints for it; \<open>JUnsupported\<close> stands for the values \<^verbatim>\<open>json.Marshal\<close> refuses
  (NaN, an infinity, a channel, a function).
\<close>

datatype jvalue =
    JNull
  | JBool bool
  | JNumber string
  | JString string
  | JArray "jvalue list"
  | JObject "(string \<times> jvalue) list"
  | JUnsupported

datatype error =
    JsonUnsupportedValue
  | UnmarshalError string
  | ClientError string
  | ReviewWithoutComment string
  | NotGitHubPullRequest
  | MergeabilityUndetermined

datatype 'a outcome = Returns 'a | Panics string

definition dquote :: char where
  "dquote = CHR 0x22"

definition backslash :: char where
  "backslash = CHR 0x5C"

text \<open>
  \<^verbatim>\<open>htmlSafeSet\<close>: the ASCII bytes the encoder copies unchanged (\<^verbatim>\<open>Marshal\<close> escapes
  HTML).
\<close>

definition html_safe :: "nat \<Rightarrow> bool" where
  "html_safe b = (0x20 \<le> b \<and> b < 0x80 \<and> b \<noteq> 0x22 \<and> b \<noteq> 0x26 \<and> b \<noteq> 0x3C
                  \<and> b \<noteq> 0x3E \<and> b \<noteq> 0x5C)"

definition escape_byte :: "char \<Rightarrow> string" where
  "escape_byte c = (let b = (of_char c :: nat) in
     if b = 0x5C \<or> b = 0x22 then [backslash, c]
     else if b = 0x0A then [backslash, CHR ''n'']
     else if b = 0x0D then [backslash, CHR ''r'']
     else if b = 0x09 then [backslash, CHR ''t'']
     else [backslash, CHR ''u'', CHR ''0'', CHR ''0'', hexdigit (b div 16), hexdigit b])"

definition cont_byte :: "nat \<Rightarrow> bool" where
  "cont_byte b = (0x80 \<le> b \<and> b \<le> 0xBF)"

text \<open>
  \<^verbatim>\<open>utf8.DecodeRuneInString\<close>, as far as the encoder looks at it: the length of the
  well-formed UTF-8 sequence at the head of the bytes, \<open>None\<close> where Go returns
  \<^verbatim>\<open>(RuneError, 1)\<close>.
\<close>

fun rune_len :: "nat list \<Rightarrow> nat option" where
  "rune_len [] = None"
| "rune_len (b0 # bs) =
     (if b0 < 0x80 then Some 1
      else if 0xC2 \<le> b0 \<and> b0 \<le> 0xDF then
        (case bs of
           b1 # _ \<Rightarrow> if cont_byte b1 then Some 2 else None
         | _ \<Rightarrow> None)
      else if 0xE0 \<le> b0 \<and> b0 \<le> 0xEF then
        (case bs of
           b1 # b2 # _ \<Rightarrow>
             if (if b0 = 0xE0 then 0xA0 else 0x80) \<le> b1
                \<and> b1 \<le> (if b0 = 0xED then 0x9F else 0xBF) \<and> cont_byte b2
             then Some 3 else None
         | _ \<Rightarrow> None)
      else if 0xF0 \<le> b0 \<and> b0 \<le> 0xF4 then
        (case bs of
           b1 # b2 # b3 # _ \<Rightarrow>
             if (if b0 = 0xF0 then 0x90 else 0x80) \<le> b1
                \<and> b1 \<le> (if b0 = 0xF4 then 0x8F else 0xBF) \<and> cont_byte b2 \<and> cont_byte b3
             then Some 4 else None
         | _ \<Rightarrow> None)
      else None)"

text \<open>
  The body of a JSON string: safe ASCII is copied, other ASCII is escaped, a byte that
  starts no well-formed rune becomes the escape of U+FFFD, U+2028 and U+2029 are escaped,
  every other rune is copied.
\<close>

fun escape_string :: "string \<Rightarrow> string" where
  "escape_string [] = []"
| "escape_string (c # cs) =
     (let b = (of_char c :: nat) in
      if b < 0x80 then
        (if html_safe b then c # escape_string cs else escape_byte c @ escape_string cs)
      else
        (case rune_len (map of_char (c # cs)) of
           None \<Rightarrow> [backslash, CHR ''u'', CHR ''f'', CHR ''f'', CHR ''f'', CHR ''d'']
                   @ escape_string cs
         | Some n \<Rightarrow>
             if n = 3 \<and> b = 0xE2 \<and> map of_char (take 2 cs) = [0x80, 0xA8 :: nat] then
               [backslash, CHR ''u'', CHR ''2'', CHR ''0'', CHR ''2'', CHR ''8'']
               @ escape_string (drop 2 cs)
             else if n = 3 \<and> b = 0xE2 \<and> map of_char (take 2 cs) = [0x80, 0xA9 :: nat] then
               [backslash, CHR ''u'', CHR ''2'', CHR ''0'', CHR ''2'', CHR ''9'']
               @ escape_string (drop 2 cs)
             else c # take (n - 1) cs @ escape_string (drop (n - 1) cs)))"

definition json_string :: "string \<Rightarrow> string" where
  "json_string s = dquote # escape_string s @ [dquote]"

text \<open>Go compares strings byte by byte; the encoder sorts the keys of a map that way.\<close>

fun bytes_less :: "string \<Rightarrow> string \<Rightarrow> bool" where
  "bytes_less _ [] = False"
| "bytes_less [] (_ # _) = True"
| "bytes_less (x # xs) (y # ys) =
     ((of_char x :: nat) < of_char y \<or> (x = y \<and> bytes_less xs ys))"

fun insert_entry :: "string \<times> 'v \<Rightarrow> (string \<times> 'v) list \<Rightarrow> (string \<times> 'v) list" where
  "insert_entry e [] = [e]"
| "insert_entry e (x # xs) =
     (if bytes_less (fst x) (fst e) then x # insert_entry e xs else e # x # xs)"

definition sort_entries :: "(string \<times> 'v) list \<Rightarrow> (string \<times> 'v) list" where
  "sort_entries m = foldr insert_entry m []"

fun join_comma :: "string list \<Rightarrow> string" where
  "join_comma [] = []"
| "join_comma [x] = x"
| "join_comma (x # y # ys) = x @ '','' @ join_comma (y # ys)"

text \<open>The first failure among the encodings of the parts is the failure of the whole.\<close>

fun collect :: "(error + 'a) list \<Rightarrow> error + 'a list" where
  "collect [] = Inr []"
| "collect (Inl e # _) = Inl e"
| "collect (Inr x # xs) = (case collect xs of Inl e \<Rightarrow> Inl e | Inr ys \<Rightarrow> Inr (x # ys))"

fun marshal_value :: "jvalue \<Rightarrow> error + string" where
  "marshal_value JNull = Inr ''null''"
| "marshal_value (JBool b) = Inr (if b then ''true'' else ''false'')"
| "marshal_value (JNumber n) = Inr n"
| "marshal_value (JString s) = Inr (json_string s)"
| "marshal_value (JArray vs) =
     (case collect (map marshal_value vs) of
        Inl e \<Rightarrow> Inl e
      | Inr ss \<Rightarrow> Inr (''['' @ join_comma ss @ '']''))"
| "marshal_value (JObject m) =
     (case collect (map (\<lambda>kv. case marshal_value (snd kv) of
                                  Inl e \<Rightarrow> Inl e
                                | Inr s \<Rightarrow> Inr (fst kv, s)) m) of
        Inl e \<Rightarrow> Inl e
      | Inr kss \<Rightarrow>
          Inr (''{'' @ join_comma (map (\<lambda>ks. json_string (fst ks) @ '':'' @ snd ks)
                                     (sort_entries kss)) @ ''}''))"
| "marshal_value JUnsupported = Inl JsonUnsupportedValue"


section \<open>models/base.go\<close>

definition elems :: "'a list option \<Rightarrow> 'a list" where
  "elems s = (case s of None \<Rightarrow> [] | Some xs \<Rightarrow> xs)"

definition append_slice :: "'a list option \<Rightarrow> 'a \<Rightarrow> 'a list option" where
  "append_slice s x = Some (elems s @ [x])"

definition CommentAction :: string where
  "CommentAction = ''comment''"

definition LoadAction :: string where
  "LoadAction = ''load''"

definition CommentData :: string where
  "CommentData = ''comment''"

definition CommenterData :: string where
  "CommenterData = ''commenter''"

definition NoteData :: string where
  "NoteData = ''note''"

definition LoadStatus :: string where
  "LoadStatus = ''status''"

definition LoadRequester :: string where
  "LoadRequester = ''requester''"

definition ReviewerData :: string where
  "ReviewerData = ''reviewer''"

definition ActionTarget :: string where
  "ActionTarget = ''action''"

definition RfcTarget :: string where
  "RfcTarget = ''rfc''"

definition ItemTarget :: string where
  "ItemTarget = ''item''"

definition SignatureLookupKey :: string where
  "SignatureLookupKey = ''signature''"

record Target =
  TargetType :: string
  TargetDescriptor :: string
  LookupKey :: string
  LookupValue :: string

record Action =
  ActionType :: string
  Target :: Target
  Signature :: string
  Data :: "(string \<times> jvalue) list option"

record RFC =
  Actions :: "Action option list option"
  Signature :: string
  Identifier :: string

text \<open>The zero value \<^verbatim>\<open>Target{}\<close>.\<close>

definition Target_zero :: Target where
  "Target_zero = \<lparr>TargetType = [], TargetDescriptor = [], LookupKey = [], LookupValue = []\<rparr>"

subsection \<open>The JSON form of the three structs\<close>

text \<open>
  The struct tags decide the member names and their order; a member tagged
  \<^verbatim>\<open>omitempty\<close> is left out when it is the empty string or a map of length 0.
\<close>

definition omitempty_string :: "string \<Rightarrow> string \<Rightarrow> string" where
  "omitempty_string name v = (if v = [] then [] else '','' @ json_string name @ '':'' @ json_string v)"

definition Target_json :: "Target \<Rightarrow> string" where
  "Target_json t =
     ''{'' @ json_string ''targetType'' @ '':'' @ json_string (TargetType t)
     @ '','' @ json_string ''targetDescriptor'' @ '':'' @ json_string (TargetDescriptor t)
     @ omitempty_string ''lookupKey'' (LookupKey t)
     @ omitempty_string ''lookupValue'' (LookupValue t) @ ''}''"

definition Data_member :: "(string \<times> jvalue) list option \<Rightarrow> error + string" where
  "Data_member d =
     (if elems d = [] then Inr []
      else case marshal_value (JObject (elems d)) of
             Inl e \<Rightarrow> Inl e
           | Inr s \<Rightarrow> Inr ('','' @ json_string ''data'' @ '':'' @ s))"

definition Action_json :: "Action \<Rightarrow> error + string" where
  "Action_json a =
     (case Data_member (Data a) of
        Inl e \<Rightarrow> Inl e
      | Inr d \<Rightarrow>
          Inr (''{'' @ json_string ''actionType'' @ '':'' @ json_string (ActionType a)
               @ '','' @ json_string ''target'' @ '':'' @ Target_json (Target a)
               @ omitempty_string ''signature'' (Action.Signature a) @ d @ ''}''))"

text \<open>An entry of \<^verbatim>\<open>Actions\<close>: the encoder prints the nil pointer as \<^verbatim>\<open>null\<close>.\<close>

definition Action_pointer_json :: "Action option \<Rightarrow> error + string" where
  "Action_pointer_json p = (case p of None \<Rightarrow> Inr ''null'' | Some a \<Rightarrow> Action_json a)"

definition Actions_json :: "Action option list option \<Rightarrow> error + string" where
  "Actions_json acts =
     (case acts of
        None \<Rightarrow> Inr ''null''
      | Some as \<Rightarrow>
          (case collect (map Action_pointer_json as) of
             Inl e \<Rightarrow> Inl e
           | Inr ss \<Rightarrow> Inr (''['' @ join_comma ss @ '']'')))"

definition RFC_json :: "RFC \<Rightarrow> error + string" where
  "RFC_json rfc =
     (case Actions_json (Actions rfc) of
        Inl e \<Rightarrow> Inl e
      | Inr acts \<Rightarrow>
          Inr (''{'' @ json_string ''actions'' @ '':'' @ acts
               @ omitempty_string ''signature'' (RFC.Signature rfc)
               @ omitempty_string ''identifier'' (Identifier rfc) @ ''}''))"

subsection \<open>ToSha\<close>

text \<open>
  \<^verbatim>\<open>json.Marshal\<close>, then SHA-256, then \<^verbatim>\<open>%x\<close>. The \<^verbatim>\<open>Write\<close> of a
  \<^verbatim>\<open>hash.Hash\<close> never returns an error, so the only failure is that of the encoder.
\<close>

definition RFC_ToSha :: "RFC \<Rightarrow> error + string" where
  "RFC_ToSha rfc = (case RFC_json rfc of Inl e \<Rightarrow> Inl e | Inr jsonBytes \<Rightarrow> Inr (sha256_hex jsonBytes))"

definition Action_ToSha :: "Action \<Rightarrow> error + string" where
  "Action_ToSha action =
     (case Action_json action of Inl e \<Rightarrow> Inl e | Inr jsonBytes \<Rightarrow> Inr (sha256_hex jsonBytes))"

subsection \<open>AddPersistentActions, AddAction\<close>

text \<open>
  The loop of \<^verbatim>\<open>AddPersistentActions\<close> over the entries of the old RFC that are still to
  be visited. It reads \<^verbatim>\<open>action.ActionType\<close> through the pointer, so it panics at a nil
  entry, with the comments of the entries before it already appended.
\<close>

fun persist :: "RFC \<Rightarrow> Action option list \<Rightarrow> RFC \<times> unit outcome" where
  "persist rfc [] = (rfc, Returns ())"
| "persist rfc (None # actions) = (rfc, Panics ''nil pointer dereference'')"
| "persist rfc (Some action # actions) =
     persist (if ActionType action = CommentAction
              then rfc\<lparr>Actions := append_slice (Actions rfc) (Some action)\<rparr>
              else rfc)
             actions"

definition AddPersistentActions :: "RFC \<Rightarrow> RFC \<Rightarrow> RFC \<times> unit outcome" where
  "AddPersistentActions rfc oldRFC = persist rfc (elems (Actions oldRFC))"

text \<open>\<^verbatim>\<open>AddAction\<close> gets the action by value and appends a pointer to its own copy.\<close>

definition AddAction :: "RFC \<Rightarrow> Action \<Rightarrow> RFC \<times> error option" where
  "AddAction rfc action =
     (case Action_ToSha action of
        Inl err \<Rightarrow> (rfc, Some err)
      | Inr actionSha \<Rightarrow>
          (rfc\<lparr>Actions := append_slice (Actions rfc)
                                (Some (action\<lparr>Action.Signature := actionSha\<rparr>))\<rparr>,
           None))"


subsection \<open>AddComments\<close>

text \<open>
  \<open>comments\<close> maps a target signature to its comment strings; its entries stand in the
  order in which \<^verbatim>\<open>range comments\<close> visits them. \<^verbatim>\<open>processed\<close> is built by the
  method itself, and Go leaves the order of \<^verbatim>\<open>range processed\<close> open: the parameter
  \<open>ord\<close> is that order, a rearrangement of the entries of the map.
\<close>

type_synonym processed = "(string \<times> Action list) list"

text \<open>\<^verbatim>\<open>processed[k] = append(processed[k], comment)\<close>\<close>

definition append_processed :: "processed \<Rightarrow> string \<Rightarrow> Action \<Rightarrow> processed" where
  "append_processed p k comment =
     AList.update k (case map_of p k of None \<Rightarrow> [comment] | Some cs \<Rightarrow> cs @ [comment]) p"

text \<open>The comment built in the first loop: it targets the action with that signature.\<close>

definition action_comment :: "Action \<Rightarrow> string \<Rightarrow> string \<Rightarrow> Action" where
  "action_comment action cmt commenter =
     \<lparr>ActionType = CommentAction,
      Target = \<lparr>TargetType = ActionTarget, TargetDescriptor = [],
                LookupKey = SignatureLookupKey, LookupValue = Action.Signature action\<rparr>,
      Signature = [],
      Data = Some [(CommentData, JString cmt), (CommenterData, JString commenter)]\<rparr>"

text \<open>
  The comment built in the second loop: it targets the RFC, and carries the note when the
  target is not the RFC's own signature.
\<close>

definition dangling_note :: "string \<Rightarrow> string" where
  "dangling_note target = ''Target with signature '' @ target @ '' was not found in this RFC''"

definition rfc_comment :: "RFC \<Rightarrow> string \<Rightarrow> string \<Rightarrow> string \<Rightarrow> Action" where
  "rfc_comment rfc target cmt commenter =
     (let data = [(CommentData, JString cmt), (CommenterData, JString commenter)]
      in \<lparr>ActionType = CommentAction,
          Target = \<lparr>TargetType = RfcTarget, TargetDescriptor = [],
                    LookupKey = SignatureLookupKey, LookupValue = RFC.Signature rfc\<rparr>,
          Signature = [],
          Data = Some (if target \<noteq> RFC.Signature rfc
                       then AList.update NoteData (JString (dangling_note target)) data
                       else data)\<rparr>)"

text \<open>
  The first loop, over the entries of \<^verbatim>\<open>rfc.Actions\<close> still to be visited, with
  \<^verbatim>\<open>processed\<close> as built so far. It reads \<^verbatim>\<open>action.Signature\<close> through the pointer, so
  it panics at a nil entry.
\<close>

fun process_actions ::
  "Action option list \<Rightarrow> (string \<times> string list) list \<Rightarrow> string \<Rightarrow> processed
     \<Rightarrow> processed outcome" where
  "process_actions [] comments commenter p = Returns p"
| "process_actions (None # actions) comments commenter p = Panics ''nil pointer dereference''"
| "process_actions (Some action # actions) comments commenter p =
     process_actions actions comments commenter
       (case map_of comments (Action.Signature action) of
          None \<Rightarrow> p
        | Some cmts \<Rightarrow>
            foldl (\<lambda>p cmt. append_processed p (Action.Signature action)
                              (action_comment action cmt commenter))
                  p cmts)"

definition process_dangling ::
  "RFC \<Rightarrow> (string \<times> string list) list \<Rightarrow> string \<Rightarrow> processed \<Rightarrow> processed" where
  "process_dangling rfc comments commenter processed =
     foldl (\<lambda>p (target, cmts).
              if map_of p target = None
              then foldl (\<lambda>p cmt. append_processed p target (rfc_comment rfc target cmt commenter))
                         p cmts
              else p)
           processed comments"

text \<open>The last loop: \<^verbatim>\<open>AddAction\<close> for each comment, returning at the first error.\<close>

fun add_actions :: "RFC \<Rightarrow> Action list \<Rightarrow> RFC \<times> error option" where
  "add_actions rfc [] = (rfc, None)"
| "add_actions rfc (comment # comments) =
     (case AddAction rfc comment of
        (rfc', Some err) \<Rightarrow> (rfc', Some err)
      | (rfc', None) \<Rightarrow> add_actions rfc' comments)"

definition AddComments ::
  "(processed \<Rightarrow> processed) \<Rightarrow> RFC \<Rightarrow> (string \<times> string list) list \<Rightarrow> string
     \<Rightarrow> RFC \<times> error option outcome" where
  "AddComments ord rfc comments commenter =
     (case process_actions (elems (Actions rfc)) comments commenter [] of
        Panics msg \<Rightarrow> (rfc, Panics msg)
      | Returns processed \<Rightarrow>
          (case add_actions rfc
                  (concat (map snd (ord (process_dangling rfc comments commenter processed)))) of
             (rfc', err) \<Rightarrow> (rfc', Returns err)))"

subsection \<open>UpdateLoadStatus\<close>

text \<open>
  The body of the loop for a load action. The two writes go to the action's own map, which
  Go does not allocate: on a nil map the first one panics. Otherwise the action is signed
  again, over its new data and the signature it has.
\<close>

definition update_load_action :: "Action \<Rightarrow> string \<Rightarrow> string \<Rightarrow> Action \<times> error option outcome" where
  "update_load_action action status requester =
     (case Data action of
        None \<Rightarrow> (action, Panics ''assignment to entry in nil map'')
      | Some d \<Rightarrow>
          (let action' = action\<lparr>Data := Some (AList.update LoadRequester (JString requester)
                                                (AList.update LoadStatus (JString status) d))\<rparr>
           in case Action_ToSha action' of
                Inl err \<Rightarrow> (action', Returns (Some err))
              | Inr sha \<Rightarrow> (action'\<lparr>Action.Signature := sha\<rparr>, Returns None)))"

text \<open>
  The loop over the entries of \<^verbatim>\<open>rfc.Actions\<close>: \<open>None\<close> when it runs to the end, having
  met no load action. Otherwise it ends inside the loop, and the result is the entries as
  they are left with how the method ends: at a nil entry the read of
  \<^verbatim>\<open>action.ActionType\<close> panics; at the first load action the body above runs and the
  method returns.
\<close>

fun update_load ::
  "Action option list \<Rightarrow> string \<Rightarrow> string
     \<Rightarrow> (Action option list \<times> error option outcome) option" where
  "update_load [] status requester = None"
| "update_load (None # actions) status requester =
     Some (None # actions, Panics ''nil pointer dereference'')"
| "update_load (Some action # actions) status requester =
     (if ActionType action = LoadAction then
        (case update_load_action action status requester of
           (action', r) \<Rightarrow> Some (Some action' # actions, r))
      else
        (case update_load actions status requester of
           None \<Rightarrow> None
         | Some (actions', r) \<Rightarrow> Some (Some action # actions', r)))"

text \<open>The new load action, \<^verbatim>\<open>loadAction\<close> in the source.\<close>

definition loadAction :: "string \<Rightarrow> string \<Rightarrow> Action" where
  "loadAction status requester =
     \<lparr>ActionType = LoadAction, Target = Target_zero, Signature = [],
      Data = Some [(LoadStatus, JString status), (LoadRequester, JString requester)]\<rparr>"

definition UpdateLoadStatus :: "RFC \<Rightarrow> string \<Rightarrow> string \<Rightarrow> RFC \<times> error option outcome" where
  "UpdateLoadStatus rfc status requester =
     (case update_load (elems (Actions rfc)) status requester of
        Some (actions', r) \<Rightarrow> (rfc\<lparr>Actions := Some actions'\<rparr>, r)
      | None \<Rightarrow>
          (case AddAction rfc (loadAction status requester) of (rfc', err) \<Rightarrow> (rfc', Returns err)))"

text \<open>
  Calls of \<^verbatim>\<open>UpdateLoadStatus\<close> made one after the other on the same RFC, whatever error
  they return; a call that panics ends the run.
\<close>

fun after_updates :: "RFC \<Rightarrow> (string \<times> string) list \<Rightarrow> RFC" where
  "after_updates rfc [] = rfc"
| "after_updates rfc ((status, requester) # calls) =
     (case UpdateLoadStatus rfc status requester of
        (rfc', Panics msg) \<Rightarrow> rfc'
      | (rfc', Returns err) \<Rightarrow> after_updates rfc' calls)"

definition panicked :: "'a outcome \<Rightarrow> bool" where
  "panicked r = (case r of Panics _ \<Rightarrow> True | Returns _ \<Rightarrow> False)"


section \<open>services/git: constants and the Git interface\<close>

definition BASE_BRANCH :: string where
  "BASE_BRANCH = ''main''"

definition APPROVE_REVIEW_TYPE :: string where
  "APPROVE_REVIEW_TYPE = ''APPROVE''"

definition REQUEST_CHANGES_REVIEW_TYPE :: string where
  "REQUEST_CHANGES_REVIEW_TYPE = ''REQUEST_CHANGES''"

definition COMMENT_REVIEW_TYPE :: string where
  "COMMENT_REVIEW_TYPE = ''COMMENT''"

definition MERGEABILITY_CLEAN_STATE :: string where
  "MERGEABILITY_CLEAN_STATE = ''clean''"

definition MERGEABILITY_PENDING_STATE :: string where
  "MERGEABILITY_PENDING_STATE = ''pending''"

definition MERGEABILITY_UNKNOWN_STATE :: string where
  "MERGEABILITY_UNKNOWN_STATE = ''unknown''"

definition MERGEABILITY_RETRY_COUNT :: nat where
  "MERGEABILITY_RETRY_COUNT = 3"

text \<open>
  \<^verbatim>\<open>github.PullRequest\<close>, with the three fields the code reads; each is a pointer, nil
  being \<open>None\<close>. \<open>Head_Ref\<close> is \<^verbatim>\<open>Head.Ref\<close>, read in the one expression
  \<^verbatim>\<open>*githubPr.Head.Ref\<close>: it is \<open>None\<close> as well when \<^verbatim>\<open>Head\<close> is nil.
  \<^verbatim>\<open>PullRequest\<close> is \<^verbatim>\<open>interface{}\<close>: a GitHub pull request or anything else.
\<close>

record GitHub_PullRequest =
  Head_Ref :: "string option"
  Number :: "int option"
  MergeableState :: "string option"

datatype PullRequest = GitHubPullRequest GitHub_PullRequest | OtherPullRequest

record Review =
  RFCIdentifier :: string
  Type :: string
  TopLevelComment :: string
  Comments :: "(string \<times> string list) list"
  LoadOnApproval :: bool

text \<open>
  The methods of the \<^verbatim>\<open>Git\<close> interface that \<^verbatim>\<open>SubmitRequest\<close> and
  \<^verbatim>\<open>ReviewRequest\<close> call. An implementation acts on a backend state \<open>'s\<close>; every call
  takes the state and returns its result with the new state. The strings that
  \<^verbatim>\<open>GetRFCContents\<close> and \<^verbatim>\<open>GetUserLogin\<close> return by pointer are carried as values: a
  call that returns no error is taken to return a pointer that is not nil.
\<close>

record 's Git =
  CreateBranch :: "string \<Rightarrow> string \<Rightarrow> 's \<Rightarrow> error option \<times> 's"
  DeleteBranch :: "string \<Rightarrow> 's \<Rightarrow> error option \<times> 's"
  CreateFile :: "string \<Rightarrow> string \<Rightarrow> RFC \<Rightarrow> 's \<Rightarrow> error option \<times> 's"
  CreatePullRequest :: "string \<Rightarrow> string \<Rightarrow> 's \<Rightarrow> error option \<times> 's"
  GetRFCContents :: "string \<Rightarrow> 's \<Rightarrow> (error + string \<times> string) \<times> 's"
  UpdateFile :: "PullRequest \<Rightarrow> RFC \<Rightarrow> 's \<Rightarrow> error option \<times> 's"
  GetPullRequest :: "string \<Rightarrow> 's \<Rightarrow> (error + PullRequest) \<times> 's"
  CreateReview :: "PullRequest \<Rightarrow> Review \<Rightarrow> 's \<Rightarrow> error option \<times> 's"
  GetUserLogin :: "'s \<Rightarrow> (error + string) \<times> 's"


section \<open>controllers: SubmitRequest\<close>

text \<open>
  The loop that signs every action of the incoming RFC, returning at the first error. On a
  nil entry \<^verbatim>\<open>action.ToSha()\<close> still returns (the encoder prints the nil pointer as
  \<^verbatim>\<open>null\<close>), and the assignment to \<^verbatim>\<open>action.Signature\<close> panics.
\<close>

fun sign_actions :: "Action option list \<Rightarrow> (error + Action option list) outcome" where
  "sign_actions [] = Returns (Inr [])"
| "sign_actions (None # actions) = Panics ''nil pointer dereference''"
| "sign_actions (Some action # actions) =
     (case Action_ToSha action of
        Inl err \<Rightarrow> Returns (Inl err)
      | Inr actionSha \<Rightarrow>
          (case sign_actions actions of
             Panics msg \<Rightarrow> Panics msg
           | Returns (Inl err) \<Rightarrow> Returns (Inl err)
           | Returns (Inr actions') \<Rightarrow>
               Returns (Inr (Some (action\<lparr>Action.Signature := actionSha\<rparr>) # actions'))))"

text \<open>The incoming RFC with the signatures the controller sets on it and on its actions.\<close>

definition signed :: "RFC \<Rightarrow> string \<Rightarrow> Action option list \<Rightarrow> RFC" where
  "signed data rfcSignature actions' =
     data\<lparr>RFC.Signature := rfcSignature, Actions := map_option (\<lambda>_. actions') (Actions data)\<rparr>"

text \<open>
  \<open>CreateRFCIdentifier\<close> is the package variable of that name, a function of the clock.
  The result is what the controller returns, with the backend state it leaves behind.
\<close>

definition SubmitRequest ::
  "'s Git \<Rightarrow> ('s \<Rightarrow> string) \<Rightarrow> RFC \<Rightarrow> 's \<Rightarrow> (error + string) outcome \<times> 's" where
  "SubmitRequest git CreateRFCIdentifier data s =
     (case RFC_ToSha data of
        Inl err \<Rightarrow> (Returns (Inl err), s)
      | Inr rfcSignature \<Rightarrow>
     (case sign_actions (elems (Actions data)) of
        Panics msg \<Rightarrow> (Panics msg, s)
      | Returns (Inl err) \<Rightarrow> (Returns (Inl err), s)
      | Returns (Inr actions') \<Rightarrow>
     (let data' = signed data rfcSignature actions';
          branch = CreateRFCIdentifier s
      in case CreateBranch git branch BASE_BRANCH s of
           (Some err, s1) \<Rightarrow> (Returns (Inl err), s1)
         | (None, s1) \<Rightarrow>
      (case CreateFile git branch branch data' s1 of
           (Some err, s2) \<Rightarrow>
             (case DeleteBranch git branch s2 of (revErr, s3) \<Rightarrow> (Returns (Inl err), s3))
         | (None, s2) \<Rightarrow>
      (case CreatePullRequest git branch BASE_BRANCH s2 of
           (Some err, s3) \<Rightarrow>
             (case DeleteBranch git branch s3 of (revErr, s4) \<Rightarrow> (Returns (Inl err), s4))
         | (None, s3) \<Rightarrow> (Returns (Inr branch), s3))))))"


section \<open>controllers: ReviewRequest\<close>

text \<open>
  \<^verbatim>\<open>strings.ToLower\<close>: an ASCII string is lowered byte by byte; a string with a byte from
  0x80 on goes through \<^verbatim>\<open>strings.Map(unicode.ToLower, s)\<close>, the parameter
  \<open>unicode_lower\<close>.
\<close>

definition lower_ascii :: "char \<Rightarrow> char" where
  "lower_ascii c =
     (if (0x41 :: nat) \<le> of_char c \<and> of_char c \<le> (0x5A :: nat)
      then char_of (of_char c + (0x20 :: nat)) else c)"

definition ToLower :: "(string \<Rightarrow> string) \<Rightarrow> string \<Rightarrow> string" where
  "ToLower unicode_lower s =
     (if \<forall>c \<in> set s. (of_char c :: nat) < 0x80 then map lower_ascii s else unicode_lower s)"

text \<open>The action that records the review, with the comment added when there is one.\<close>

definition review_action :: "(string \<Rightarrow> string) \<Rightarrow> Review \<Rightarrow> string \<Rightarrow> RFC \<Rightarrow> Action" where
  "review_action unicode_lower data login rfc =
     (let identifier = (if Type data = COMMENT_REVIEW_TYPE then CommentData else ReviewerData);
          action = \<lparr>ActionType = ToLower unicode_lower (Type data),
                    Target = \<lparr>TargetType = ''rfc'', TargetDescriptor = [],
                              LookupKey = SignatureLookupKey, LookupValue = RFC.Signature rfc\<rparr>,
                    Signature = [],
                    Data = Some [(identifier, JString login)]\<rparr>
      in if TopLevelComment data \<noteq> []
         then action\<lparr>Data := Some (AList.update ''comment'' (JString (TopLevelComment data))
                                                  (elems (Data action)))\<rparr>
         else action)"

definition approved_message :: "string \<Rightarrow> string" where
  "approved_message rfcIdentifier =
     ''Successfully approved RFC '' @ rfcIdentifier
     @ ''. A load request was submitted. You may query the load status''
     @ [CHR 0x0A, CHR 0x09, CHR 0x09] @ ''through the /status endpoint.''"

definition reviewed_message :: "string \<Rightarrow> string \<Rightarrow> string" where
  "reviewed_message rfcIdentifier t =
     ''Successfully reviewed RFC '' @ rfcIdentifier @ '' with type of '' @ [CHR 0x27] @ t @ [CHR 0x27]"

text \<open>
  The ledger part of the controller: \<^verbatim>\<open>AddComments\<close>, then the review action when the
  review is not a plain comment or has a top-level comment.
\<close>

definition record_review ::
  "(string \<Rightarrow> string) \<Rightarrow> (processed \<Rightarrow> processed) \<Rightarrow> Review \<Rightarrow> string \<Rightarrow> RFC
     \<Rightarrow> RFC \<times> error option outcome" where
  "record_review unicode_lower ord data login rfc =
     (case AddComments ord rfc (Comments data) login of
        (rfc1, Panics msg) \<Rightarrow> (rfc1, Panics msg)
      | (rfc1, Returns (Some err)) \<Rightarrow> (rfc1, Returns (Some err))
      | (rfc1, Returns None) \<Rightarrow>
          if Type data \<noteq> COMMENT_REVIEW_TYPE \<or> TopLevelComment data \<noteq> []
          then (case AddAction rfc1 (review_action unicode_lower data login rfc1) of
                  (rfc2, err) \<Rightarrow> (rfc2, Returns err))
          else (rfc1, Returns None))"

text \<open>
  \<open>unmarshal\<close> is \<^verbatim>\<open>json.Unmarshal\<close> into a fresh RFC. On success the controller
  returns its message and, when it started \<^verbatim>\<open>attemptLoadAndMerge\<close> in a goroutine, the
  arguments of that call; the goroutine itself is not run here.
\<close>

definition ReviewRequest ::
  "'s Git \<Rightarrow> (string \<Rightarrow> error + RFC) \<Rightarrow> (string \<Rightarrow> string) \<Rightarrow> (processed \<Rightarrow> processed)
     \<Rightarrow> Review \<Rightarrow> 's
     \<Rightarrow> (error + string \<times> (PullRequest \<times> RFC \<times> string) option) outcome \<times> 's" where
  "ReviewRequest git unmarshal unicode_lower ord data s =
     (if (Type data = COMMENT_REVIEW_TYPE \<or> Type data = REQUEST_CHANGES_REVIEW_TYPE)
         \<and> TopLevelComment data = [] \<and> length (Comments data) = 0
      then (Returns (Inl (ReviewWithoutComment (Type data))), s)
      else
     (case GetPullRequest git (RFCIdentifier data) s of
        (Inl err, s1) \<Rightarrow> (Returns (Inl err), s1)
      | (Inr pr, s1) \<Rightarrow>
     (case GetUserLogin git s1 of
        (Inl err, s2) \<Rightarrow> (Returns (Inl err), s2)
      | (Inr login, s2) \<Rightarrow>
     (case GetRFCContents git (RFCIdentifier data) s2 of
        (Inl err, s3) \<Rightarrow> (Returns (Inl err), s3)
      | (Inr (content, _), s3) \<Rightarrow>
     (case unmarshal content of
        Inl err \<Rightarrow> (Returns (Inl err), s3)
      | Inr rfc \<Rightarrow>
     (case record_review unicode_lower ord data login rfc of
        (rfc', Panics msg) \<Rightarrow> (Panics msg, s3)
      | (rfc', Returns (Some err)) \<Rightarrow> (Returns (Inl err), s3)
      | (rfc', Returns None) \<Rightarrow>
     (case UpdateFile git pr rfc' s3 of
        (Some err, s4) \<Rightarrow> (Returns (Inl err), s4)
      | (None, s4) \<Rightarrow>
     (case CreateReview git pr data s4 of
        (Some err, s5) \<Rightarrow> (Returns (Inl err), s5)
      | (None, s5) \<Rightarrow>
          (if Type data = APPROVE_REVIEW_TYPE \<and> LoadOnApproval data
           then (Returns (Inr (approved_message (RFCIdentifier data),
                               Some (pr, rfc', RFCIdentifier data))), s5)
           else (Returns (Inr (reviewed_message (RFCIdentifier data) (Type data), None)),
                 s5))))))))))"


section \<open>services/git/github.go: GetMergeability\<close>

text \<open>
  The two endpoints of the GitHub client that the poller calls. A run of the service is the
  answer it gives to the \<open>n\<close>-th call of an endpoint (counted from 0 within each loop)
  with the given argument; \<open>Inl\<close> is the client's error, and a call without error
  returns a result that is not nil (the client allocates it before it sends the request).
  The sleeps between two polls take time and change nothing else; they are left out.
\<close>

record CombinedStatus =
  State :: "string option"

record GitHub_client =
  GetCombinedStatus :: "nat \<Rightarrow> string \<Rightarrow> string + CombinedStatus"
  PullRequests_Get :: "nat \<Rightarrow> int \<Rightarrow> string + GitHub_PullRequest"

function poll_status :: "GitHub_client \<Rightarrow> string \<Rightarrow> nat \<Rightarrow> error option" where
  "poll_status g ref retryCount =
     (if retryCount < MERGEABILITY_RETRY_COUNT then
        (case GetCombinedStatus g retryCount ref of
           Inl err \<Rightarrow> Some (ClientError err)
         | Inr status \<Rightarrow>
             if State status = Some MERGEABILITY_PENDING_STATE
             then poll_status g ref (retryCount + 1)
             else None)
      else None)"
  by pat_completeness auto
termination
  by (relation "measure (\<lambda>(g, ref, retryCount). MERGEABILITY_RETRY_COUNT - retryCount)") auto

definition still_calculating :: "GitHub_PullRequest \<Rightarrow> bool" where
  "still_calculating githubPr =
     (MergeableState githubPr = None \<or> MergeableState githubPr = Some MERGEABILITY_UNKNOWN_STATE)"

function poll_pr ::
  "GitHub_client \<Rightarrow> GitHub_PullRequest \<Rightarrow> nat \<Rightarrow> (error + GitHub_PullRequest) outcome" where
  "poll_pr g githubPr retryCount =
     (if retryCount < MERGEABILITY_RETRY_COUNT then
        (case Number githubPr of
           None \<Rightarrow> Panics ''nil pointer dereference''
         | Some number \<Rightarrow>
             (case PullRequests_Get g retryCount number of
                Inl err \<Rightarrow> Returns (Inl (ClientError err))
              | Inr githubPr' \<Rightarrow>
                  if still_calculating githubPr'
                  then poll_pr g githubPr' (retryCount + 1)
                  else Returns (Inr githubPr')))
      else Returns (Inr githubPr))"
  by pat_completeness auto
termination
  by (relation "measure (\<lambda>(g, githubPr, retryCount). MERGEABILITY_RETRY_COUNT - retryCount)") auto

definition GetMergeability :: "GitHub_client \<Rightarrow> PullRequest \<Rightarrow> (error + bool) outcome" where
  "GetMergeability g pr =
     (case pr of
        OtherPullRequest \<Rightarrow> Returns (Inl NotGitHubPullRequest)
      | GitHubPullRequest githubPr \<Rightarrow>
          (case Head_Ref githubPr of
             None \<Rightarrow> Panics ''nil pointer dereference''
           | Some ref \<Rightarrow>
               (case poll_status g ref 0 of
                  Some err \<Rightarrow> Returns (Inl err)
                | None \<Rightarrow>
                    (case poll_pr g githubPr 0 of
                       Panics msg \<Rightarrow> Panics msg
                     | Returns (Inl err) \<Rightarrow> Returns (Inl err)
                     | Returns (Inr githubPr') \<Rightarrow>
                         if still_calculating githubPr'
                         then Returns (Inl MergeabilityUndetermined)
                         else Returns (Inr (MergeableState githubPr'
                                            = Some MERGEABILITY_CLEAN_STATE))))))"


section \<open>Auxiliary notions\<close>

text \<open>A data map all of whose values are strings.\<close>

definition string_valued :: "(string \<times> jvalue) list option \<Rightarrow> bool" where
  "string_valued d = (\<forall>kv \<in> set (elems d). \<exists>s. snd kv = JString s)"


text \<open>The actions that the entries of an RFC point to, the nil entries left out.\<close>

fun pointees :: "'a option list \<Rightarrow> 'a list" where
  "pointees [] = []"
| "pointees (None # ps) = pointees ps"
| "pointees (Some a # ps) = a # pointees ps"

definition actions_of :: "RFC \<Rightarrow> Action list" where
  "actions_of rfc = pointees (elems (Actions rfc))"

text \<open>
  An entry that points to a comment, and one that points to a load action. The loop of
  \<^verbatim>\<open>UpdateLoadStatus\<close> ends at the first entry that is nil or points to a load action;
  the method panics when that entry is nil or its load action has a nil data map.
\<close>

definition is_comment :: "Action option \<Rightarrow> bool" where
  "is_comment p = (case p of None \<Rightarrow> False | Some a \<Rightarrow> ActionType a = CommentAction)"

definition is_load :: "Action option \<Rightarrow> bool" where
  "is_load p = (case p of None \<Rightarrow> False | Some a \<Rightarrow> ActionType a = LoadAction)"

definition ends_loop :: "Action option \<Rightarrow> bool" where
  "ends_loop p = (p = None \<or> is_load p)"

definition blocked :: "RFC \<Rightarrow> bool" where
  "blocked rfc =
     (case find ends_loop (elems (Actions rfc)) of
        None \<Rightarrow> False
      | Some None \<Rightarrow> True
      | Some (Some a) \<Rightarrow> Data a = None)"

text \<open>An action with the signature \<^verbatim>\<open>AddAction\<close> gives it.\<close>

definition signed_action :: "Action \<Rightarrow> Action" where
  "signed_action a = (case Action_ToSha a of Inl _ \<Rightarrow> a | Inr h \<Rightarrow> a\<lparr>Action.Signature := h\<rparr>)"

text \<open>
  What \<^verbatim>\<open>AddComments\<close> is to add, in the words of its contract: for every action
  whose signature is a key of \<open>comments\<close>, one comment on that action per comment string
  of the key; and for every key that is the signature of no action, one comment on the RFC
  per comment string.
\<close>

definition action_comments :: "RFC \<Rightarrow> (string \<times> string list) list \<Rightarrow> string \<Rightarrow> Action list" where
  "action_comments rfc comments commenter =
     concat (map (\<lambda>a. case map_of comments (Action.Signature a) of
                         None \<Rightarrow> []
                       | Some cmts \<Rightarrow> map (\<lambda>cmt. action_comment a cmt commenter) cmts)
                 (actions_of rfc))"

definition rfc_comments :: "RFC \<Rightarrow> (string \<times> string list) list \<Rightarrow> string \<Rightarrow> Action list" where
  "rfc_comments rfc comments commenter =
     concat (map (\<lambda>(target, cmts).
                    if target \<in> Action.Signature ` set (actions_of rfc) then []
                    else map (\<lambda>cmt. rfc_comment rfc target cmt commenter) cmts)
                 comments)"

text \<open>The comments of a \<^verbatim>\<open>processed\<close> map, entry after entry.\<close>

definition flat :: "processed \<Rightarrow> Action list" where
  "flat p = concat (map snd p)"

text \<open>
  A value that \<^verbatim>\<open>json.Marshal\<close> can encode: every value that \<^verbatim>\<open>json.Unmarshal\<close> puts
  into a map is one.
\<close>

fun encodable :: "jvalue \<Rightarrow> bool" where
  "encodable (JArray vs) = (\<forall>v \<in> set vs. encodable v)"
| "encodable (JObject m) = (\<forall>kv \<in> set m. encodable (snd kv))"
| "encodable JUnsupported = False"
| "encodable JNull = True"
| "encodable (JBool b) = True"
| "encodable (JNumber n) = True"
| "encodable (JString s) = True"

text \<open>
  What the poller of \<^verbatim>\<open>GetMergeability\<close> meets. \<open>pending_until g ref k\<close>: the first
  \<open>k\<close> polls of the combined status succeed and say pending. \<open>checks_settled g ref\<close>:
  the first loop ends without an error, at a poll (one of the first
  \<^verbatim>\<open>MERGEABILITY_RETRY_COUNT\<close>) that succeeds and does not say pending, or after that many
  polls that say pending. \<open>calculating_until g q m\<close>: with \<open>q 0\<close> the pull request in
  hand, the first \<open>m\<close> fetches succeed, fetch \<open>j\<close> being asked with the number of
  \<open>q j\<close> and answering \<open>q (j + 1)\<close>, whose merge state is unknown or absent.
\<close>

fun pending_until :: "GitHub_client \<Rightarrow> string \<Rightarrow> nat \<Rightarrow> bool" where
  "pending_until g ref 0 = True"
| "pending_until g ref (Suc k) =
     (pending_until g ref k
      \<and> (case GetCombinedStatus g k ref of
            Inl err \<Rightarrow> False
          | Inr status \<Rightarrow> State status = Some MERGEABILITY_PENDING_STATE))"

definition checks_settled :: "GitHub_client \<Rightarrow> string \<Rightarrow> bool" where
  "checks_settled g ref =
     (pending_until g ref MERGEABILITY_RETRY_COUNT
      \<or> (\<exists>k \<in> set [0..<MERGEABILITY_RETRY_COUNT].
            pending_until g ref k
            \<and> (case GetCombinedStatus g k ref of
                  Inl err \<Rightarrow> False
                | Inr status \<Rightarrow> State status \<noteq> Some MERGEABILITY_PENDING_STATE)))"

fun calculating_until :: "GitHub_client \<Rightarrow> (nat \<Rightarrow> GitHub_PullRequest) \<Rightarrow> nat \<Rightarrow> bool" where
  "calculating_until g q 0 = True"
| "calculating_until g q (Suc m) =
     (calculating_until g q m
      \<and> (case Number (q m) of
            None \<Rightarrow> False
          | Some number \<Rightarrow> PullRequests_Get g m number = Inr (q (Suc m)))
      \<and> still_calculating (q (Suc m)))"


section \<open>A mock of the Git interface\<close>

text \<open>
  The mock of the repository's controller tests: every method records its call, and fails
  or succeeds as the test case says. The backend state is the list of the calls made.
\<close>

datatype call =
    CreateBranch_call string string
  | DeleteBranch_call string
  | CreateFile_call string string RFC
  | CreatePullRequest_call string string
  | GetRFCContents_call string
  | UpdateFile_call PullRequest RFC
  | GetPullRequest_call string
  | CreateReview_call PullRequest Review
  | GetUserLogin_call

definition mockGit :: "(call \<Rightarrow> error option) \<Rightarrow> PullRequest \<Rightarrow> string \<Rightarrow> string \<Rightarrow> call list Git" where
  "mockGit fails pr login content =
     \<lparr>CreateBranch = (\<lambda>branch baseBranch s.
        (fails (CreateBranch_call branch baseBranch), s @ [CreateBranch_call branch baseBranch])),
      DeleteBranch = (\<lambda>branch s. (fails (DeleteBranch_call branch), s @ [DeleteBranch_call branch])),
      CreateFile = (\<lambda>branch directory data s.
        (fails (CreateFile_call branch directory data), s @ [CreateFile_call branch directory data])),
      CreatePullRequest = (\<lambda>branch baseBranch s.
        (fails (CreatePullRequest_call branch baseBranch),
         s @ [CreatePullRequest_call branch baseBranch])),
      GetRFCContents = (\<lambda>branch s.
        (case fails (GetRFCContents_call branch) of
           Some err \<Rightarrow> Inl err
         | None \<Rightarrow> Inr (content, ''junk-sha''),
         s @ [GetRFCContents_call branch])),
      UpdateFile = (\<lambda>pr' data s. (fails (UpdateFile_call pr' data), s @ [UpdateFile_call pr' data])),
      GetPullRequest = (\<lambda>branch s.
        (case fails (GetPullRequest_call branch) of Some err \<Rightarrow> Inl err | None \<Rightarrow> Inr pr,
         s @ [GetPullRequest_call branch])),
      CreateReview = (\<lambda>pr' data s.
        (fails (CreateReview_call pr' data), s @ [CreateReview_call pr' data])),
      GetUserLogin = (\<lambda>s.
        (case fails GetUserLogin_call of Some err \<Rightarrow> Inl err | None \<Rightarrow> Inr login,
         s @ [GetUserLogin_call]))\<rparr>"

fun fail_file_and_delete :: "call \<Rightarrow> error option" where
  "fail_file_and_delete (CreateFile_call _ _ _) = Some (ClientError ''create file error'')"
| "fail_file_and_delete (DeleteBranch_call _) = Some (ClientError ''delete branch error'')"
| "fail_file_and_delete _ = None"

fun fail_pull_request_and_delete :: "call \<Rightarrow> error option" where
  "fail_pull_request_and_delete (CreatePullRequest_call _ _) = Some (ClientError ''create pull request error'')"
| "fail_pull_request_and_delete (DeleteBranch_call _) = Some (ClientError ''delete branch error'')"
| "fail_pull_request_and_delete _ = None"

definition never_fails :: "call \<Rightarrow> error option" where
  "never_fails c = None"

definition test_identifier :: "call list \<Rightarrow> string" where
  "test_identifier s = ''test-identifier''"


section \<open>Example inputs\<close>

text \<open>The action of the repository's own test of \<^verbatim>\<open>SubmitRequest\<close>.\<close>

definition test_action :: Action where
  "test_action =
     \<lparr>ActionType = ''add'',
      Target = \<lparr>TargetType = ''item'', TargetDescriptor = ''entity'',
                LookupKey = [], LookupValue = []\<rparr>,
      Signature = [],
      Data = Some [(''id'', JString ''123'')]\<rparr>"

text \<open>
  The load action as the first call \<^verbatim>\<open>UpdateLoadStatus("load_requested", "bot")\<close> leaves
  it, and an RFC that holds it.
\<close>

definition stored_load :: Action where
  "stored_load =
     \<lparr>ActionType = ''load'', Target = Target_zero,
      Signature = ''355443728acf3f210fac1a18baf0b7a63f6c9028f016a953e0011f463cc44eda'',
      Data = Some [(''status'', JString ''load_requested''), (''requester'', JString ''bot'')]\<rparr>"

definition loading_rfc :: RFC where
  "loading_rfc = \<lparr>Actions = Some [Some test_action, Some stored_load], Signature = [],
                  Identifier = []\<rparr>"

text \<open>
  A load action as a client can submit it, with no \<^verbatim>\<open>data\<close> member: its map is nil.
\<close>

definition bare_load :: Action where
  "bare_load = \<lparr>ActionType = ''load'', Target = Target_zero, Signature = [], Data = None\<rparr>"

definition bare_load_rfc :: RFC where
  "bare_load_rfc = \<lparr>Actions = Some [Some bare_load], Signature = [], Identifier = []\<rparr>"

text \<open>
  The RFC that \<^verbatim>\<open>json.Unmarshal\<close> makes of \<^verbatim>\<open>{"actions":[null]}\<close>: its one entry is
  the nil pointer.
\<close>

definition null_entry_rfc :: RFC where
  "null_entry_rfc = \<lparr>Actions = Some [None], Signature = [], Identifier = []\<rparr>"

text \<open>The empty RFC \<^verbatim>\<open>&models.RFC{}\<close> of the controller tests.\<close>

definition empty_rfc :: RFC where
  "empty_rfc = \<lparr>Actions = None, Signature = [], Identifier = []\<rparr>"

text \<open>
  The RFC that \<^verbatim>\<open>SubmitRequest\<close> stores for \<open>test_action\<close>, with the signatures the
  repository's test expects, as \<^verbatim>\<open>json.Unmarshal\<close> gives it back.
\<close>

definition signed_test_action :: Action where
  "signed_test_action = test_action\<lparr>Action.Signature :=
     ''49991c32fc001d99b9c5908005509686aff6ba7d16a14cd3ecaebc5d6d916cf0''\<rparr>"

definition stored_rfc :: RFC where
  "stored_rfc =
     \<lparr>Actions = Some [Some signed_test_action],
      Signature = ''7fe5c325b99df102515c1f8d5e1cdde084dc9beabec4a346f07dcd90d4ddb4b1'',
      Identifier = []\<rparr>"

text \<open>The stored file of that RFC, and \<^verbatim>\<open>json.Unmarshal\<close> on it.\<close>

definition stored_content :: string where
  "stored_content = ''{\"actions\":[{\"actionType\":\"add\",\"target\":{\"targetType\":\"item\",\"targetDescriptor\":\"entity\"},\"signature\":\"49991c32fc001d99b9c5908005509686aff6ba7d16a14cd3ecaebc5d6d916cf0\",\"data\":{\"id\":\"123\"}}],\"signature\":\"7fe5c325b99df102515c1f8d5e1cdde084dc9beabec4a346f07dcd90d4ddb4b1\"}''"

definition unmarshal_stored :: "string \<Rightarrow> error + RFC" where
  "unmarshal_stored content =
     (if content = stored_content then Inr stored_rfc
      else Inl (UnmarshalError ''invalid character''))"

text \<open>
  The empty RFC with the signature \<^verbatim>\<open>SubmitRequest\<close> gives it, an RFC that lists the
  same signed action twice, and comments by target signature.
\<close>

definition signed_empty_rfc :: RFC where
  "signed_empty_rfc = empty_rfc\<lparr>RFC.Signature :=
     ''f18c3913e5bcaa9ffd1d1d6cfea3f4ce3516c66c060676a1759fb5d3202e7496''\<rparr>"



definition review_comments :: "(string \<times> string list) list" where
  "review_comments =
     [(''49991c32fc001d99b9c5908005509686aff6ba7d16a14cd3ecaebc5d6d916cf0'', [''why?'']),
      (''unknown-signature'', [''hm''])]"

text \<open>An RFC under review: the stored action and a comment on it.\<close>

definition commented_rfc :: RFC where
  "commented_rfc =
     \<lparr>Actions = Some [Some signed_test_action,
                       Some (action_comment signed_test_action ''why?'' ''alice'')],
      Signature = ''7fe5c325b99df102515c1f8d5e1cdde084dc9beabec4a346f07dcd90d4ddb4b1'',
      Identifier = []\<rparr>"


text \<open>Reviews: a comment with a top-level comment, and one with no comment at all.\<close>

definition comment_review :: Review where
  "comment_review = \<lparr>RFCIdentifier = ''123456'', Type = ''COMMENT'', TopLevelComment = ''nice'',
                      Comments = [], LoadOnApproval = False\<rparr>"



definition keep_order :: "processed \<Rightarrow> processed" where
  "keep_order p = p"

definition no_unicode :: "string \<Rightarrow> string" where
  "no_unicode s = s"

text \<open>Pull requests and clients for the mergeability poller.\<close>

definition clean_pr :: GitHub_PullRequest where
  "clean_pr = \<lparr>Head_Ref = Some ''123456'', Number = Some 7, MergeableState = Some ''clean''\<rparr>"

definition unknown_pr :: GitHub_PullRequest where
  "unknown_pr = \<lparr>Head_Ref = Some ''123456'', Number = Some 7, MergeableState = Some ''unknown''\<rparr>"

text \<open>A client whose status endpoint fails, while every fetch of the pull request says clean.\<close>

definition failing_client :: GitHub_client where
  "failing_client =
     \<lparr>GetCombinedStatus = (\<lambda>n ref. Inl ''unable to retrieve ref combined status''),
      PullRequests_Get = (\<lambda>n number. Inr clean_pr)\<rparr>"

text \<open>A client whose checks have passed and whose merge state never leaves unknown.\<close>

definition stuck_client :: GitHub_client where
  "stuck_client =
     \<lparr>GetCombinedStatus = (\<lambda>n ref. Inr \<lparr>State = Some ''success''\<rparr>),
      PullRequests_Get = (\<lambda>n number. Inr unknown_pr)\<rparr>"

text \<open>
  A client whose status endpoint says pending and then fails; one whose checks have passed
  and whose second fetch of the pull request fails; and one that settles at the second
  poll of each loop, on \<^verbatim>\<open>clean\<close>.
\<close>

definition flaky_client :: GitHub_client where
  "flaky_client =
     \<lparr>GetCombinedStatus = (\<lambda>n ref. if n = 0 then Inr \<lparr>State = Some ''pending''\<rparr>
                                    else Inl ''status timeout''),
      PullRequests_Get = (\<lambda>n number. Inr clean_pr)\<rparr>"

definition dropping_client :: GitHub_client where
  "dropping_client =
     \<lparr>GetCombinedStatus = (\<lambda>n ref. Inr \<lparr>State = Some ''success''\<rparr>),
      PullRequests_Get = (\<lambda>n number. if n = 0 then Inr unknown_pr else Inl ''fetch timeout'')\<rparr>"

definition slow_client :: GitHub_client where
  "slow_client =
     \<lparr>GetCombinedStatus = (\<lambda>n ref. Inr \<lparr>State = Some (if n = 0 then ''pending''
                                                          else ''success'')\<rparr>),
      PullRequests_Get = (\<lambda>n number. if n = 0 then Inr unknown_pr else Inr clean_pr)\<rparr>"


section \<open>Properties\<close>

subsection \<open>Slices and pointers\<close>

lemma elems_simps [simp]: "elems None = []" "elems (Some xs) = xs"
  by (simp_all add: elems_def)

lemma elems_append_slice [simp]: "elems (append_slice s x) = elems s @ [x]"
  by (simp add: append_slice_def)

lemma pointees_map_Some [simp]: "pointees (map Some as) = as"
  by (induction as) auto

lemma pointees_append [simp]: "pointees (ps @ qs) = pointees ps @ pointees qs"
  by (induction ps rule: pointees.induct) auto

lemma map_Some_pointees: "None \<notin> set ps \<Longrightarrow> map Some (pointees ps) = ps"
  by (induction ps rule: pointees.induct) auto

subsection \<open>Encoding\<close>

lemma collect_Inr:
  "(\<And>x. x \<in> set xs \<Longrightarrow> \<exists>y. f x = Inr y) \<Longrightarrow> \<exists>ys. collect (map f xs) = Inr ys"
proof (induction xs)
  case Nil
  then show ?case by simp
next
  case (Cons x xs)
  then obtain y ys where "f x = Inr y" "collect (map f xs) = Inr ys"
    by (metis list.set_intros(1) list.set_intros(2))
  then show ?case by simp
qed

lemma marshal_encodable: "encodable v \<Longrightarrow> \<exists>s. marshal_value v = Inr s"
proof (induction v)
  case (JArray vs)
  have "\<exists>ys. collect (map marshal_value vs) = Inr ys"
  proof (rule collect_Inr)
    fix x assume "x \<in> set vs"
    then show "\<exists>y. marshal_value x = Inr y" using JArray by simp
  qed
  then show ?case by auto
next
  case (JObject m)
  have "\<exists>ys. collect (map (\<lambda>kv. case marshal_value (snd kv) of
                 Inl e \<Rightarrow> Inl e | Inr s \<Rightarrow> Inr (fst kv, s)) m) = Inr ys"
  proof (rule collect_Inr)
    fix x assume x: "x \<in> set m"
    then have "encodable (snd x)" using JObject.prems by simp
    moreover have "snd x \<in> Basic_BNFs.snds x" by (cases x) simp
    ultimately obtain s where "marshal_value (snd x) = Inr s"
      using JObject.IH x by blast
    then show "\<exists>y. (case marshal_value (snd x) of Inl e \<Rightarrow> Inl e | Inr s \<Rightarrow> Inr (fst x, s)) = Inr y"
      by simp
  qed
  then show ?case by auto
qed simp_all

lemma Data_member_encodable:
  "\<forall>kv \<in> set (elems d). encodable (snd kv) \<Longrightarrow> \<exists>js. Data_member d = Inr js"
  using marshal_encodable [of "JObject (elems d)"] by (auto simp: Data_member_def)

lemma Action_ToSha_encodable:
  "\<forall>kv \<in> set (elems (Data a)). encodable (snd kv)
     \<Longrightarrow> \<exists>js. Action_json a = Inr js \<and> Action_ToSha a = Inr (sha256_hex js)"
  using Data_member_encodable [of "Data a"] by (auto simp: Action_json_def Action_ToSha_def)

lemma Action_ToSha_strings: "string_valued (Data a) \<Longrightarrow> \<exists>h. Action_ToSha a = Inr h"
proof -
  assume "string_valued (Data a)"
  then have "\<forall>kv \<in> set (elems (Data a)). encodable (snd kv)"
    by (auto simp: string_valued_def)
  then show ?thesis using Action_ToSha_encodable by blast
qed

subsection \<open>AddAction\<close>

lemma AddAction_Signature [simp]: "RFC.Signature (fst (AddAction rfc a)) = RFC.Signature rfc"
  and AddAction_Identifier [simp]: "Identifier (fst (AddAction rfc a)) = Identifier rfc"
  by (simp_all add: AddAction_def split: sum.splits)

lemma AddAction_elems:
  "elems (Actions (fst (AddAction rfc a))) =
     (case Action_ToSha a of Inl e \<Rightarrow> elems (Actions rfc)
      | Inr h \<Rightarrow> elems (Actions rfc) @ [Some (a\<lparr>Action.Signature := h\<rparr>)])"
  by (simp add: AddAction_def split: sum.splits)

lemma AddAction_signed:
  "string_valued (Data a) \<Longrightarrow>
     AddAction rfc a = (rfc\<lparr>Actions := Some (elems (Actions rfc) @ [Some (signed_action a)])\<rparr>, None)"
  using Action_ToSha_strings [of a]
  by (auto simp: AddAction_def signed_action_def append_slice_def)

lemma signed_action_fields [simp]:
  "ActionType (signed_action a) = ActionType a" "Target (signed_action a) = Target a"
  "Data (signed_action a) = Data a"
  by (simp_all add: signed_action_def split: sum.splits)

lemma signed_action_hash:
  "string_valued (Data a) \<Longrightarrow> Action_ToSha a = Inr (Action.Signature (signed_action a))"
  using Action_ToSha_strings [of a] by (auto simp: signed_action_def)

subsection \<open>AddPersistentActions\<close>

lemma persist_result:
  "elems (Actions (fst (persist rfc old)))
     = elems (Actions rfc) @ filter is_comment (takeWhile (\<lambda>p. p \<noteq> None) old)
   \<and> RFC.Signature (fst (persist rfc old)) = RFC.Signature rfc
   \<and> Identifier (fst (persist rfc old)) = Identifier rfc
   \<and> snd (persist rfc old)
       = (if None \<in> set old then Panics ''nil pointer dereference'' else Returns ())"
  by (induction rfc old rule: persist.induct) (auto simp: is_comment_def)

lemma takeWhile_present: "None \<notin> set ps \<Longrightarrow> takeWhile (\<lambda>p. p \<noteq> None) ps = ps"
proof (induction ps)
  case Nil
  then show ?case by simp
next
  case (Cons a ps)
  then show ?case by (cases a) auto
qed

text \<open>
  Claim C9. When no entry of the old RFC is nil, \<^verbatim>\<open>AddPersistentActions\<close> returns, and
  it has appended to the new RFC's actions exactly the entries of the old RFC that point to
  an action of type \<^verbatim>\<open>comment\<close>, in their order and as they are (the same pointers, so
  the actions with their signatures); actions of any other type are not carried over, and
  the entries the new RFC already had stay in front, untouched. When an entry of the old
  RFC is nil, the method panics at the first such entry, having carried the comments that
  come before it. In both cases the RFC's signature and identifier are not changed.
\<close>

theorem AddPersistentActions_carries_comments:
  "(if None \<in> set (elems (Actions oldRFC))
    then snd (AddPersistentActions newRFC oldRFC) = Panics ''nil pointer dereference''
         \<and> elems (Actions (fst (AddPersistentActions newRFC oldRFC)))
             = elems (Actions newRFC)
               @ filter is_comment (takeWhile (\<lambda>p. p \<noteq> None) (elems (Actions oldRFC)))
    else snd (AddPersistentActions newRFC oldRFC) = Returns ()
         \<and> elems (Actions (fst (AddPersistentActions newRFC oldRFC)))
             = elems (Actions newRFC) @ filter is_comment (elems (Actions oldRFC)))
   \<and> RFC.Signature (fst (AddPersistentActions newRFC oldRFC)) = RFC.Signature newRFC
   \<and> Identifier (fst (AddPersistentActions newRFC oldRFC)) = Identifier newRFC"
proof -
  let ?old = "elems (Actions oldRFC)"
  have r: "elems (Actions (fst (persist newRFC ?old)))
             = elems (Actions newRFC) @ filter is_comment (takeWhile (\<lambda>p. p \<noteq> None) ?old)"
    "RFC.Signature (fst (persist newRFC ?old)) = RFC.Signature newRFC"
    "Identifier (fst (persist newRFC ?old)) = Identifier newRFC"
    "snd (persist newRFC ?old)
       = (if None \<in> set ?old then Panics ''nil pointer dereference'' else Returns ())"
    using persist_result [of newRFC ?old] by blast+
  show ?thesis
  proof (cases "None \<in> set ?old")
    case True
    then show ?thesis unfolding AddPersistentActions_def
      by (simp only: r if_True simp_thms)
  next
    case False
    then have "takeWhile (\<lambda>p. p \<noteq> None) ?old = ?old"
      by (rule takeWhile_present)
    with False show ?thesis unfolding AddPersistentActions_def
      by (simp only: r if_False simp_thms)
  qed
qed

theorem AddPersistentActions_carries_comments_witness:
  "AddPersistentActions empty_rfc commented_rfc
     = (\<lparr>Actions = Some [Some (action_comment signed_test_action ''why?'' ''alice'')],
         Signature = [], Identifier = []\<rparr>, Returns ())
   \<and> snd (AddPersistentActions empty_rfc null_entry_rfc) = Panics ''nil pointer dereference''"
proof -
  have "elems (Actions (fst (AddPersistentActions empty_rfc commented_rfc)))
          = [Some (action_comment signed_test_action ''why?'' ''alice'')]
        \<and> snd (AddPersistentActions empty_rfc commented_rfc) = Returns ()"
    using AddPersistentActions_carries_comments [of commented_rfc empty_rfc]
    by (simp add: commented_rfc_def empty_rfc_def is_comment_def signed_test_action_def
        test_action_def action_comment_def CommentAction_def)
  moreover have "fst (AddPersistentActions empty_rfc commented_rfc)
                   = \<lparr>Actions = Actions (fst (AddPersistentActions empty_rfc commented_rfc)),
                      Signature = [], Identifier = []\<rparr>"
    using AddPersistentActions_carries_comments [of commented_rfc empty_rfc]
    by (cases "fst (AddPersistentActions empty_rfc commented_rfc)") (simp add: empty_rfc_def)
  moreover have "Actions (fst (AddPersistentActions empty_rfc commented_rfc))
                   = Some (elems (Actions (fst (AddPersistentActions empty_rfc commented_rfc))))"
    using calculation(1)
    by (cases "Actions (fst (AddPersistentActions empty_rfc commented_rfc))") simp_all
  moreover have "snd (AddPersistentActions empty_rfc null_entry_rfc)
                   = Panics ''nil pointer dereference''"
    using AddPersistentActions_carries_comments [of null_entry_rfc empty_rfc]
    by (simp add: null_entry_rfc_def)
  ultimately show ?thesis
    by (metis prod.collapse)
qed

subsection \<open>The length of a hash\<close>

lemma hex32_length [simp]: "length (hex32 w) = 8"
  by (simp add: hex32_def)

lemma step_length: "length st = 8 \<Longrightarrow> length (step st k w) = 8"
  by (induction st k w rule: step.induct) (auto simp: Let_def)

lemma rounds_length: "length st = 8 \<Longrightarrow> length (rounds st ks ws) = 8"
  by (induction st ks ws rule: rounds.induct) (auto simp: step_length)

lemma compress_length: "length hs = 8 \<Longrightarrow> length (compress hs blk) = 8"
  by (simp add: compress_def rounds_length)

lemma foldl_compress_length: "length hs = 8 \<Longrightarrow> length (foldl compress hs blks) = 8"
  by (induction blks arbitrary: hs) (auto simp: compress_length)

lemma sha256_length: "length (sha256 m) = 8"
  by (simp add: sha256_def foldl_compress_length H256_def)

lemma concat_hex_length: "length (concat (map hex32 ws)) = 8 * length ws"
  by (induction ws) auto

lemma sha256_hex_length: "length (sha256_hex s) = 64"
  by (simp add: sha256_hex_def concat_hex_length sha256_length)

subsection \<open>Hash values and \<^verbatim>\<open>ToSha\<close>\<close>

text \<open>
  Rules to evaluate \<open>sha256_hex\<close> on a literal. The first hash below is the one the
  repository's test of \<^verbatim>\<open>SubmitRequest\<close> expects for its action.
\<close>

lemma replicate_numeral: "replicate (numeral k) x = x # replicate (pred_numeral k) x"
  by (simp add: numeral_eq_Suc)

lemma schedule_numeral:
  "schedule (numeral k) ws =
     schedule (pred_numeral k)
       (add32 (add32 (add32 (ssig1 (ws ! 1)) (ws ! 6)) (ssig0 (ws ! 14))) (ws ! 15) # ws)"
  by (simp add: numeral_eq_Suc)

lemma mod32_mask: "(x :: nat) mod 4294967296 = x AND 4294967295"
proof -
  have "x mod 2 ^ 32 = x AND mask 32"
    by (simp only: flip: take_bit_eq_mod take_bit_eq_mask)
  then show ?thesis by (simp add: mask_eq_exp_minus_1)
qed

lemmas sha_eval = sha256_hex_def sha256_def pad_def be64_def compress_def K256_def H256_def
  hex32_def hexdigit_def Ch_def Maj_def bsig0_def bsig1_def ssig0_def ssig1_def Let_def
  replicate_numeral schedule_numeral add32_def not32_def rotr_def mod32_mask

lemma sha_test_action:
  "sha256_hex ''{\"actionType\":\"add\",\"target\":{\"targetType\":\"item\",\"targetDescriptor\":\"entity\"},\"data\":{\"id\":\"123\"}}''
     = ''49991c32fc001d99b9c5908005509686aff6ba7d16a14cd3ecaebc5d6d916cf0''"
  by (simp add: sha_eval)

lemma sha_signed_test_action:
  "sha256_hex ''{\"actionType\":\"add\",\"target\":{\"targetType\":\"item\",\"targetDescriptor\":\"entity\"},\"signature\":\"49991c32fc001d99b9c5908005509686aff6ba7d16a14cd3ecaebc5d6d916cf0\",\"data\":{\"id\":\"123\"}}''
     = ''2cc4c0cd8a0018c4b13dd8a9ebbd1e921c65577c6ebcd5cc0151fd8fb18f7d79''"
  by (simp add: sha_eval)

lemma sha_empty_rfc:
  "sha256_hex ''{\"actions\":null}''
     = ''f18c3913e5bcaa9ffd1d1d6cfea3f4ce3516c66c060676a1759fb5d3202e7496''"
  by (simp add: sha_eval)

lemma sha_signed_empty_rfc:
  "sha256_hex ''{\"actions\":null,\"signature\":\"f18c3913e5bcaa9ffd1d1d6cfea3f4ce3516c66c060676a1759fb5d3202e7496\"}''
     = ''fbb2a14bc27942cd60129e48ddd916bfb77cb8316c383883f2e9b9116408b583''"
  by (simp add: sha_eval)

lemmas json_eval = RFC_json_def Actions_json_def Action_pointer_json_def Action_json_def
  Data_member_def Target_json_def omitempty_string_def json_string_def sort_entries_def
  dquote_def html_safe_def

lemma empty_rfc_json: "RFC_json empty_rfc = Inr ''{\"actions\":null}''"
  by (simp add: empty_rfc_def RFC_json_def Actions_json_def omitempty_string_def json_string_def
      dquote_def html_safe_def)

lemma test_action_json:
  "Action_json test_action = Inr ''{\"actionType\":\"add\",\"target\":{\"targetType\":\"item\",\"targetDescriptor\":\"entity\"},\"data\":{\"id\":\"123\"}}''"
  by (simp add: test_action_def json_eval)

lemma signed_test_action_json:
  "Action_json signed_test_action = Inr ''{\"actionType\":\"add\",\"target\":{\"targetType\":\"item\",\"targetDescriptor\":\"entity\"},\"signature\":\"49991c32fc001d99b9c5908005509686aff6ba7d16a14cd3ecaebc5d6d916cf0\",\"data\":{\"id\":\"123\"}}''"
  by (simp add: signed_test_action_def test_action_def json_eval)

lemma test_action_ToSha:
  "Action_ToSha test_action = Inr ''49991c32fc001d99b9c5908005509686aff6ba7d16a14cd3ecaebc5d6d916cf0''"
  by (simp add: Action_ToSha_def test_action_json sha_test_action)

lemma signed_test_action_ToSha:
  "Action_ToSha signed_test_action
     = Inr ''2cc4c0cd8a0018c4b13dd8a9ebbd1e921c65577c6ebcd5cc0151fd8fb18f7d79''"
  by (simp add: Action_ToSha_def signed_test_action_json sha_signed_test_action)

lemma empty_rfc_ToSha:
  "RFC_ToSha empty_rfc = Inr ''f18c3913e5bcaa9ffd1d1d6cfea3f4ce3516c66c060676a1759fb5d3202e7496''"
  by (simp add: RFC_ToSha_def empty_rfc_json sha_empty_rfc)

lemma signed_empty_rfc_json:
  "RFC_json signed_empty_rfc = Inr ''{\"actions\":null,\"signature\":\"f18c3913e5bcaa9ffd1d1d6cfea3f4ce3516c66c060676a1759fb5d3202e7496\"}''"
  by (simp add: signed_empty_rfc_def empty_rfc_def json_eval)

lemma signed_empty_rfc_ToSha:
  "RFC_ToSha signed_empty_rfc
     = Inr ''fbb2a14bc27942cd60129e48ddd916bfb77cb8316c383883f2e9b9116408b583''"
  by (simp add: RFC_ToSha_def signed_empty_rfc_json sha_signed_empty_rfc)

text \<open>
  Claim C1, as stated, fails: the action of the repository's test, once signed, hashes to
  another value than the same action with an empty signature, and so does the signed
  empty RFC.
\<close>

theorem ToSha_depends_on_signature:
  "Action_ToSha signed_test_action \<noteq> Action_ToSha (signed_test_action\<lparr>Action.Signature := []\<rparr>)
   \<and> RFC_ToSha signed_empty_rfc \<noteq> RFC_ToSha (signed_empty_rfc\<lparr>RFC.Signature := []\<rparr>)"
proof -
  have "signed_test_action\<lparr>Action.Signature := []\<rparr> = test_action"
    by (simp add: signed_test_action_def test_action_def)
  moreover have "signed_empty_rfc\<lparr>RFC.Signature := []\<rparr> = empty_rfc"
    by (simp add: signed_empty_rfc_def empty_rfc_def)
  ultimately show ?thesis
    by (simp add: test_action_ToSha signed_test_action_ToSha empty_rfc_ToSha signed_empty_rfc_ToSha)
qed

lemma omitempty_string_empty [simp]:
  "omitempty_string name v = [] \<longleftrightarrow> v = []" "omitempty_string name [] = []"
  by (simp_all add: omitempty_string_def)

lemma Action_json_signature:
  "Action_json (a\<lparr>Action.Signature := s\<rparr>) = Action_json (a\<lparr>Action.Signature := []\<rparr>)
     \<longleftrightarrow> s = [] \<or> isl (Action_json a)"
  by (cases "Data_member (Data a)") (auto simp: Action_json_def)

lemma RFC_json_signature:
  "RFC_json (rfc\<lparr>RFC.Signature := s\<rparr>) = RFC_json (rfc\<lparr>RFC.Signature := []\<rparr>)
     \<longleftrightarrow> s = [] \<or> isl (RFC_json rfc)"
  by (cases "Actions_json (Actions rfc)") (auto simp: RFC_json_def)

text \<open>
  Claim C1, as amended. \<^verbatim>\<open>ToSha\<close> is the SHA-256 of the JSON form of the whole action
  (or RFC), and that form leaves the signature out only when it is empty: where the JSON
  form exists, the hash input with signature \<open>s\<close> equals the hash input with the empty
  signature if and only if \<open>s\<close> is empty.
\<close>

theorem ToSha_hashes_signed_form:
  "Action_ToSha a = map_sum id sha256_hex (Action_json a)
   \<and> RFC_ToSha rfc = map_sum id sha256_hex (RFC_json rfc)
   \<and> (Action_json (a\<lparr>Action.Signature := s\<rparr>) = Action_json (a\<lparr>Action.Signature := []\<rparr>)
        \<longleftrightarrow> s = [] \<or> isl (Action_json a))
   \<and> (RFC_json (rfc\<lparr>RFC.Signature := s\<rparr>) = RFC_json (rfc\<lparr>RFC.Signature := []\<rparr>)
        \<longleftrightarrow> s = [] \<or> isl (RFC_json rfc))"
  using Action_json_signature [where a = a and s = s] RFC_json_signature [where rfc = rfc and s = s]
  by (simp add: Action_ToSha_def RFC_ToSha_def split: sum.splits)

theorem ToSha_hashes_signed_form_witness:
  "Action_json (test_action\<lparr>Action.Signature := ''0f''\<rparr>)
     \<noteq> Action_json (test_action\<lparr>Action.Signature := []\<rparr>)
   \<and> RFC_json (empty_rfc\<lparr>RFC.Signature := ''0f''\<rparr>) \<noteq> RFC_json (empty_rfc\<lparr>RFC.Signature := []\<rparr>)"
  using ToSha_hashes_signed_form [where a = test_action and rfc = empty_rfc and s = "''0f''"]
  by (simp add: test_action_json empty_rfc_json)

subsection \<open>UpdateLoadStatus\<close>

lemma find_split:
  "find P ps = Some x \<Longrightarrow> ps = takeWhile (\<lambda>p. \<not> P p) ps @ x # tl (dropWhile (\<lambda>p. \<not> P p) ps)"
  by (induction ps) (auto split: if_splits)

lemma find_first:
  "P x \<Longrightarrow> find P (takeWhile (\<lambda>p. \<not> P p) ps @ x # rest) = Some x"
  by (induction ps) auto

lemma find_None_filter: "find P ps = None \<Longrightarrow> filter P ps = []"
  by (induction ps) (auto split: if_splits)

lemma find_None_append: "find P ps = None \<Longrightarrow> find P (ps @ qs) = find P qs"
  by (induction ps) (auto split: if_splits)

lemma filter_takeWhile_not:
  "(\<And>p. P p \<Longrightarrow> Q p) \<Longrightarrow> filter P (takeWhile (\<lambda>p. \<not> Q p) ps) = []"
  by (induction ps) auto

lemma is_load_ends_loop: "is_load p \<Longrightarrow> ends_loop p"
  by (simp add: ends_loop_def)

lemma update_load_find:
  "update_load ps st rq =
     (case find ends_loop ps of
        None \<Rightarrow> None
      | Some None \<Rightarrow> Some (ps, Panics ''nil pointer dereference'')
      | Some (Some a) \<Rightarrow>
          Some (takeWhile (\<lambda>p. \<not> ends_loop p) ps @ Some (fst (update_load_action a st rq))
                  # tl (dropWhile (\<lambda>p. \<not> ends_loop p) ps),
                snd (update_load_action a st rq)))"
proof (induction ps st rq rule: update_load.induct)
  case (1 status requester)
  then show ?case by simp
next
  case (2 actions status requester)
  then show ?case by (simp add: ends_loop_def)
next
  case (3 action actions status requester)
  show ?case
  proof (cases "ActionType action = LoadAction")
    case True
    then show ?thesis by (simp add: ends_loop_def is_load_def split: prod.splits)
  next
    case False
    then have n: "\<not> ends_loop (Some action)" by (simp add: ends_loop_def is_load_def)
    show ?thesis using False n 3
      by (auto split: option.splits)
  qed
qed

lemma update_load_action_type [simp]:
  "ActionType (fst (update_load_action a st rq)) = ActionType a"
  by (simp add: update_load_action_def Let_def split: option.splits sum.splits)

lemma update_load_action_nil:
  "Data a = None \<Longrightarrow> update_load_action a st rq = (a, Panics ''assignment to entry in nil map'')"
  by (simp add: update_load_action_def)

lemma update_load_action_data:
  "Data a = Some d \<Longrightarrow>
     update_load_action a st rq =
       (case Action_ToSha (a\<lparr>Data := Some (AList.update ''requester'' (JString rq)
                                              (AList.update ''status'' (JString st) d))\<rparr>) of
          Inl err \<Rightarrow> (a\<lparr>Data := Some (AList.update ''requester'' (JString rq)
                                         (AList.update ''status'' (JString st) d))\<rparr>,
                      Returns (Some err))
        | Inr sha \<Rightarrow> (a\<lparr>Data := Some (AList.update ''requester'' (JString rq)
                                         (AList.update ''status'' (JString st) d)),
                        Action.Signature := sha\<rparr>,
                      Returns None))"
  by (simp add: update_load_action_def Let_def LoadStatus_def LoadRequester_def split: sum.splits)

lemma update_load_action_panicked:
  "panicked (snd (update_load_action a st rq)) \<longleftrightarrow> Data a = None"
  by (simp add: update_load_action_def panicked_def Let_def split: option.splits sum.splits)

lemma update_load_action_keeps_map:
  "Data a \<noteq> None \<Longrightarrow> Data (fst (update_load_action a st rq)) \<noteq> None"
  by (auto simp: update_load_action_def Let_def split: option.splits sum.splits)

lemma loadAction_json:
  "Action_json (loadAction st rq)
     = Inr (''{\"actionType\":\"load\",\"target\":{\"targetType\":\"\",\"targetDescriptor\":\"\"},\"data\":{\"requester\":''
            @ json_string rq @ '',\"status\":'' @ json_string st @ ''}}'')"
  by (simp add: loadAction_def LoadAction_def LoadStatus_def LoadRequester_def Target_zero_def
      json_eval)

lemma UpdateLoadStatus_absent:
  assumes "find ends_loop (elems (Actions rfc)) = None"
  shows "UpdateLoadStatus rfc st rq =
           (rfc\<lparr>Actions := Some (elems (Actions rfc) @
              [Some \<lparr>ActionType = ''load'', Target = Target_zero,
                     Signature = sha256_hex
                       (''{\"actionType\":\"load\",\"target\":{\"targetType\":\"\",\"targetDescriptor\":\"\"},\"data\":{\"requester\":''
                        @ json_string rq @ '',\"status\":'' @ json_string st @ ''}}''),
                     Data = Some [(''status'', JString st), (''requester'', JString rq)]\<rparr>])\<rparr>,
            Returns None)"
proof -
  have "update_load (elems (Actions rfc)) st rq = None"
    using assms by (simp add: update_load_find)
  moreover have "Action_ToSha (loadAction st rq)
     = Inr (sha256_hex (''{\"actionType\":\"load\",\"target\":{\"targetType\":\"\",\"targetDescriptor\":\"\"},\"data\":{\"requester\":''
            @ json_string rq @ '',\"status\":'' @ json_string st @ ''}}''))"
    by (simp only: Action_ToSha_def loadAction_json sum.case)
  ultimately show ?thesis
    by (simp add: UpdateLoadStatus_def AddAction_def append_slice_def loadAction_def
        LoadAction_def LoadStatus_def LoadRequester_def)
qed

lemma UpdateLoadStatus_nil:
  assumes "find ends_loop (elems (Actions rfc)) = Some None"
  shows "UpdateLoadStatus rfc st rq = (rfc, Panics ''nil pointer dereference'')"
proof -
  have "elems (Actions rfc) \<noteq> []" using assms by auto
  then have "Actions rfc = Some (elems (Actions rfc))" by (cases "Actions rfc") auto
  then have "rfc\<lparr>Actions := Some (elems (Actions rfc))\<rparr> = rfc" by simp
  then show ?thesis using assms by (simp add: UpdateLoadStatus_def update_load_find)
qed

lemma UpdateLoadStatus_present:
  assumes "find ends_loop (elems (Actions rfc)) = Some (Some a)"
  shows "UpdateLoadStatus rfc st rq =
           (rfc\<lparr>Actions := Some (takeWhile (\<lambda>p. \<not> ends_loop p) (elems (Actions rfc))
                                   @ Some (fst (update_load_action a st rq))
                                   # tl (dropWhile (\<lambda>p. \<not> ends_loop p) (elems (Actions rfc))))\<rparr>,
            snd (update_load_action a st rq))"
  using assms by (simp add: UpdateLoadStatus_def update_load_find)

lemma UpdateLoadStatus_bare:
  assumes "find ends_loop (elems (Actions rfc)) = Some (Some a)" and "Data a = None"
  shows "UpdateLoadStatus rfc st rq = (rfc, Panics ''assignment to entry in nil map'')"
proof -
  have "elems (Actions rfc) = takeWhile (\<lambda>p. \<not> ends_loop p) (elems (Actions rfc)) @ Some a
          # tl (dropWhile (\<lambda>p. \<not> ends_loop p) (elems (Actions rfc)))"
    using find_split [OF assms(1)] .
  moreover have "elems (Actions rfc) \<noteq> []" using assms(1) by auto
  then have "Actions rfc = Some (elems (Actions rfc))" by (cases "Actions rfc") auto
  ultimately have "rfc\<lparr>Actions := Some (takeWhile (\<lambda>p. \<not> ends_loop p) (elems (Actions rfc))
                                   @ Some a
                                   # tl (dropWhile (\<lambda>p. \<not> ends_loop p) (elems (Actions rfc))))\<rparr> = rfc"
    by simp
  then show ?thesis
    using UpdateLoadStatus_present [OF assms(1), of st rq] update_load_action_nil [OF assms(2), of st rq]
    by simp
qed

lemma UpdateLoadStatus_panicked:
  "panicked (snd (UpdateLoadStatus rfc st rq)) \<longleftrightarrow> blocked rfc"
proof (cases "find ends_loop (elems (Actions rfc))")
  case None
  then show ?thesis
    using UpdateLoadStatus_absent [OF None, of st rq] by (simp add: blocked_def panicked_def)
next
  case (Some p)
  show ?thesis
  proof (cases p)
    case None
    with Some UpdateLoadStatus_nil [of rfc st rq] show ?thesis
      by (simp add: blocked_def panicked_def)
  next
    case (Some a)
    with \<open>find ends_loop (elems (Actions rfc)) = Some p\<close>
    have f: "find ends_loop (elems (Actions rfc)) = Some (Some a)" by simp
    show ?thesis
      using UpdateLoadStatus_present [OF f, of st rq] update_load_action_panicked [of a st rq] f
      by (simp add: blocked_def)
  qed
qed

lemma UpdateLoadStatus_blocked:
  assumes "blocked rfc"
  shows "fst (UpdateLoadStatus rfc st rq) = rfc"
proof (cases "find ends_loop (elems (Actions rfc))")
  case None
  then show ?thesis using assms by (simp add: blocked_def)
next
  case (Some p)
  show ?thesis
  proof (cases p)
    case None
    with Some UpdateLoadStatus_nil [of rfc st rq] show ?thesis by simp
  next
    case (Some a)
    with \<open>find ends_loop (elems (Actions rfc)) = Some p\<close>
    have f: "find ends_loop (elems (Actions rfc)) = Some (Some a)" by simp
    then have "Data a = None" using assms by (simp add: blocked_def)
    then show ?thesis using UpdateLoadStatus_bare [OF f, of st rq] by simp
  qed
qed

lemma UpdateLoadStatus_count:
  assumes "\<not> blocked rfc"
  shows "length (filter is_load (elems (Actions (fst (UpdateLoadStatus rfc st rq)))))
           = max 1 (length (filter is_load (elems (Actions rfc))))"
    and "\<not> blocked (fst (UpdateLoadStatus rfc st rq))"
proof -
  let ?ps = "elems (Actions rfc)"
  let ?r = "fst (UpdateLoadStatus rfc st rq)"
  have "length (filter is_load (elems (Actions ?r))) = max 1 (length (filter is_load ?ps))
        \<and> \<not> blocked ?r"
  proof (cases "find ends_loop ?ps")
    case None
    have "filter is_load ?ps = []"
    proof -
      have "filter ends_loop ?ps = []" using None by (rule find_None_filter)
      then show ?thesis by (auto simp: filter_empty_conv is_load_ends_loop)
    qed
    moreover have "find ends_loop (?ps @ [Some (loadAction st rq\<lparr>Action.Signature := h\<rparr>)])
                     = Some (Some (loadAction st rq\<lparr>Action.Signature := h\<rparr>))" for h
      using None by (simp add: find_None_append ends_loop_def is_load_def loadAction_def)
    ultimately show ?thesis
      using UpdateLoadStatus_absent [OF None, of st rq]
      by (simp add: blocked_def is_load_def LoadAction_def find_None_append None ends_loop_def)
  next
    case (Some p)
    then obtain a where f: "find ends_loop ?ps = Some (Some a)" and d: "Data a \<noteq> None"
      using assms by (cases p) (auto simp: blocked_def)
    have "ends_loop (Some a)" using f by (auto simp: find_Some_iff)
    then have la: "is_load (Some a)" by (simp add: ends_loop_def)
    let ?a' = "fst (update_load_action a st rq)"
    let ?before = "takeWhile (\<lambda>p. \<not> ends_loop p) ?ps"
    let ?after = "tl (dropWhile (\<lambda>p. \<not> ends_loop p) ?ps)"
    have la': "is_load (Some ?a')" using la by (simp add: is_load_def)
    have new: "elems (Actions ?r) = ?before @ Some ?a' # ?after"
      using UpdateLoadStatus_present [OF f, of st rq] by simp
    have old: "?ps = ?before @ Some a # ?after" using find_split [OF f] .
    have "filter is_load ?ps = filter is_load (?before @ Some a # ?after)"
      using old by simp
    then have c: "length (filter is_load ?ps) = Suc (length (filter is_load ?after))"
      using la by (simp add: filter_takeWhile_not is_load_ends_loop)
    have c': "length (filter is_load (elems (Actions ?r))) = Suc (length (filter is_load ?after))"
      using la' by (simp add: new filter_takeWhile_not is_load_ends_loop)
    have "find ends_loop (elems (Actions ?r)) = Some (Some ?a')"
      unfolding new using la' by (intro find_first) (rule is_load_ends_loop)
    moreover have "Data ?a' \<noteq> None" using d by (rule update_load_action_keeps_map)
    ultimately have "\<not> blocked ?r" by (simp add: blocked_def)
    with c c' show ?thesis by simp
  qed
  then show "length (filter is_load (elems (Actions ?r))) = max 1 (length (filter is_load ?ps))"
    and "\<not> blocked ?r" by auto
qed

lemma after_updates_count:
  "length (filter is_load (elems (Actions (after_updates rfc calls))))
     = (if calls = [] \<or> blocked rfc then length (filter is_load (elems (Actions rfc)))
        else max 1 (length (filter is_load (elems (Actions rfc)))))"
proof (induction calls arbitrary: rfc)
  case Nil
  then show ?case by simp
next
  case (Cons c calls)
  obtain st rq where c: "c = (st, rq)" by (cases c)
  obtain rfc' r where u: "UpdateLoadStatus rfc st rq = (rfc', r)" by (cases "UpdateLoadStatus rfc st rq")
  show ?case
  proof (cases "blocked rfc")
    case True
    then have "panicked r" "rfc' = rfc"
      using UpdateLoadStatus_panicked [of rfc st rq] UpdateLoadStatus_blocked [of rfc st rq] u
      by simp_all
    then show ?thesis using True u by (cases r) (simp_all add: c panicked_def)
  next
    case False
    then have np: "\<not> panicked r" using UpdateLoadStatus_panicked [of rfc st rq] u by simp
    then obtain err where r: "r = Returns err" by (cases r) (simp_all add: panicked_def)
    have cnt: "length (filter is_load (elems (Actions rfc')))
                 = max 1 (length (filter is_load (elems (Actions rfc))))"
      and nb: "\<not> blocked rfc'"
      using UpdateLoadStatus_count [OF False, of st rq] u by simp_all
    have "after_updates rfc (c # calls) = after_updates rfc' calls"
      by (simp add: c u r)
    then show ?thesis using Cons.IH [of rfc'] cnt nb False by simp
  qed
qed

text \<open>
  Claim C10, as amended. \<^verbatim>\<open>UpdateLoadStatus\<close> panics if and only if the first entry of
  the RFC that is nil or points to a load action is nil (the loop reads the action type
  through the pointer) or points to a load action whose data map is nil (the update branch
  writes into that map without allocating it). So it does not panic when no entry of the
  RFC is nil and every load action of the RFC has a data map that is not nil. When it
  panics, the RFC is left as it was.
\<close>

theorem UpdateLoadStatus_panics_exactly:
  "(panicked (snd (UpdateLoadStatus rfc status requester))
      \<longleftrightarrow> (case find ends_loop (elems (Actions rfc)) of
             None \<Rightarrow> False
           | Some None \<Rightarrow> True
           | Some (Some a) \<Rightarrow> Data a = None))
   \<and> (None \<notin> set (elems (Actions rfc))
       \<and> (\<forall>a. Some a \<in> set (elems (Actions rfc)) \<and> ActionType a = LoadAction \<longrightarrow> Data a \<noteq> None)
      \<longrightarrow> \<not> panicked (snd (UpdateLoadStatus rfc status requester)))
   \<and> (panicked (snd (UpdateLoadStatus rfc status requester))
      \<longrightarrow> fst (UpdateLoadStatus rfc status requester) = rfc)"
proof (intro conjI impI)
  show "panicked (snd (UpdateLoadStatus rfc status requester))
      \<longleftrightarrow> (case find ends_loop (elems (Actions rfc)) of
             None \<Rightarrow> False
           | Some None \<Rightarrow> True
           | Some (Some a) \<Rightarrow> Data a = None)"
    using UpdateLoadStatus_panicked [of rfc status requester] by (simp add: blocked_def)
next
  assume h: "None \<notin> set (elems (Actions rfc))
       \<and> (\<forall>a. Some a \<in> set (elems (Actions rfc)) \<and> ActionType a = LoadAction \<longrightarrow> Data a \<noteq> None)"
  have "\<not> blocked rfc"
  proof (cases "find ends_loop (elems (Actions rfc))")
    case None
    then show ?thesis by (simp add: blocked_def)
  next
    case (Some p)
    then have m: "p \<in> set (elems (Actions rfc))" and e: "ends_loop p"
      by (auto simp: find_Some_iff)
    have "p \<noteq> None"
    proof
      assume "p = None"
      with m h show False by simp
    qed
    then obtain a where a: "p = Some a" by (cases p) auto
    with e have "ActionType a = LoadAction" by (simp add: ends_loop_def is_load_def)
    with m a h have "Data a \<noteq> None" by blast
    with Some a show ?thesis by (simp add: blocked_def)
  qed
  then show "\<not> panicked (snd (UpdateLoadStatus rfc status requester))"
    by (simp add: UpdateLoadStatus_panicked)
next
  assume "panicked (snd (UpdateLoadStatus rfc status requester))"
  then have "blocked rfc" by (simp add: UpdateLoadStatus_panicked)
  then show "fst (UpdateLoadStatus rfc status requester) = rfc"
    by (rule UpdateLoadStatus_blocked)
qed

theorem UpdateLoadStatus_panics_exactly_witness:
  "None \<notin> set (elems (Actions loading_rfc))
   \<and> Data test_action \<noteq> None \<and> Data stored_load \<noteq> None
   \<and> \<not> panicked (snd (UpdateLoadStatus loading_rfc ''loading'' ''bot''))
   \<and> find ends_loop (elems (Actions bare_load_rfc)) = Some (Some bare_load)
   \<and> Data bare_load = None
   \<and> panicked (snd (UpdateLoadStatus bare_load_rfc ''loading'' ''bot''))
   \<and> fst (UpdateLoadStatus bare_load_rfc ''loading'' ''bot'') = bare_load_rfc"
  using UpdateLoadStatus_panics_exactly [of loading_rfc "''loading''" "''bot''"]
        UpdateLoadStatus_panics_exactly [of bare_load_rfc "''loading''" "''bot''"]
  by (auto simp: loading_rfc_def test_action_def stored_load_def bare_load_rfc_def bare_load_def
      ends_loop_def is_load_def LoadAction_def)

text \<open>
  Claim C10, as stated, fails. The RFC that \<^verbatim>\<open>json.Unmarshal\<close> makes of
  \<^verbatim>\<open>{"actions":[null]}\<close> has no load action, so every load action present in it has a
  data map; and \<^verbatim>\<open>UpdateLoadStatus\<close> panics on it, at the read of the action type
  through the nil pointer.
\<close>

theorem UpdateLoadStatus_panics_on_null_entry:
  "filter is_load (elems (Actions null_entry_rfc)) = []
   \<and> UpdateLoadStatus null_entry_rfc ''loading'' ''bot''
       = (null_entry_rfc, Panics ''nil pointer dereference'')"
  by (simp add: null_entry_rfc_def is_load_def UpdateLoadStatus_def)

lemma sha_load_requested:
  "sha256_hex ''{\"actionType\":\"load\",\"target\":{\"targetType\":\"\",\"targetDescriptor\":\"\"},\"data\":{\"requester\":\"bot\",\"status\":\"load_requested\"}}''
     = ''355443728acf3f210fac1a18baf0b7a63f6c9028f016a953e0011f463cc44eda''"
  by (simp add: sha_eval)

lemma sha_loading:
  "sha256_hex ''{\"actionType\":\"load\",\"target\":{\"targetType\":\"\",\"targetDescriptor\":\"\"},\"signature\":\"355443728acf3f210fac1a18baf0b7a63f6c9028f016a953e0011f463cc44eda\",\"data\":{\"requester\":\"bot\",\"status\":\"loading\"}}''
     = ''10cad162e18c27b5d86335214b51b59ad4adc881d4483e002a88d571cd75e3f7''"
  by (simp add: sha_eval)

lemma set_update_encodable:
  assumes "\<forall>kv \<in> set d. encodable (snd kv)" and "encodable v"
  shows "\<forall>kv \<in> set (AList.update k v d). encodable (snd kv)"
  using assms by (induction d) auto

text \<open>
  Claim C4, as amended. Let the loop of \<^verbatim>\<open>UpdateLoadStatus\<close> meet no nil entry before
  it ends.

  When the RFC has no load action, the call appends exactly one entry, a load action with
  the zero target, the data \<^verbatim>\<open>{"status": status, "requester": requester}\<close> and, as
  signature, the hash of its JSON form; it returns no error.

  When the RFC has a load action and the data map of the first one is not nil, the call
  appends nothing and changes that entry alone: in its data map \<^verbatim>\<open>status\<close> and
  \<^verbatim>\<open>requester\<close> are overwritten, and the action is signed again, its new signature being
  the hash of the action with the new data and the old signature. (Should the encoder
  refuse the data, the call returns that error and leaves the old signature; it does not
  when the values of the map are ones the encoder accepts.)

  The call panics exactly when the loop ends at a nil entry or at a load action whose data
  map is nil (\<open>blocked\<close>), and then it leaves the RFC as it was.

  After any run of calls the number of load actions is the number the RFC started with,
  or 1 if it started with none and a call was made that did not panic: no call ever adds
  a second load action.
\<close>

theorem UpdateLoadStatus_single_load:
  "(find ends_loop (elems (Actions rfc)) = None \<longrightarrow>
      UpdateLoadStatus rfc status requester =
        (rfc\<lparr>Actions := Some (elems (Actions rfc) @
           [Some \<lparr>ActionType = ''load'', Target = Target_zero,
                  Signature = sha256_hex
                    (''{\"actionType\":\"load\",\"target\":{\"targetType\":\"\",\"targetDescriptor\":\"\"},\"data\":{\"requester\":''
                     @ json_string requester @ '',\"status\":'' @ json_string status @ ''}}''),
                  Data = Some [(''status'', JString status), (''requester'', JString requester)]\<rparr>])\<rparr>,
         Returns None))
   \<and> (\<forall>a d. find ends_loop (elems (Actions rfc)) = Some (Some a) \<and> Data a = Some d \<longrightarrow>
        (let a' = a\<lparr>Data := Some (AList.update ''requester'' (JString requester)
                                     (AList.update ''status'' (JString status) d))\<rparr>;
             before = takeWhile (\<lambda>p. \<not> ends_loop p) (elems (Actions rfc));
             after = tl (dropWhile (\<lambda>p. \<not> ends_loop p) (elems (Actions rfc)))
         in ActionType a = ''load''
            \<and> elems (Actions rfc) = before @ Some a # after
            \<and> UpdateLoadStatus rfc status requester =
                (case Action_ToSha a' of
                   Inr sha \<Rightarrow>
                     (rfc\<lparr>Actions := Some (before @ Some (a'\<lparr>Action.Signature := sha\<rparr>) # after)\<rparr>,
                      Returns None)
                 | Inl err \<Rightarrow>
                     (rfc\<lparr>Actions := Some (before @ Some a' # after)\<rparr>, Returns (Some err)))
            \<and> ((\<forall>kv \<in> set d. encodable (snd kv)) \<longrightarrow>
                 (\<exists>js. Action_json a' = Inr js \<and> Action_ToSha a' = Inr (sha256_hex js)))))
   \<and> (panicked (snd (UpdateLoadStatus rfc status requester)) \<longleftrightarrow> blocked rfc)
   \<and> (blocked rfc \<longrightarrow> fst (UpdateLoadStatus rfc status requester) = rfc)
   \<and> length (filter is_load (elems (Actions (after_updates rfc calls))))
       = (if calls = [] \<or> blocked rfc then length (filter is_load (elems (Actions rfc)))
          else max 1 (length (filter is_load (elems (Actions rfc)))))"
proof (intro conjI allI impI)
  assume "find ends_loop (elems (Actions rfc)) = None"
  then show "UpdateLoadStatus rfc status requester =
        (rfc\<lparr>Actions := Some (elems (Actions rfc) @
           [Some \<lparr>ActionType = ''load'', Target = Target_zero,
                  Signature = sha256_hex
                    (''{\"actionType\":\"load\",\"target\":{\"targetType\":\"\",\"targetDescriptor\":\"\"},\"data\":{\"requester\":''
                     @ json_string requester @ '',\"status\":'' @ json_string status @ ''}}''),
                  Data = Some [(''status'', JString status), (''requester'', JString requester)]\<rparr>])\<rparr>,
         Returns None)"
    by (rule UpdateLoadStatus_absent)
next
  fix a d
  assume h: "find ends_loop (elems (Actions rfc)) = Some (Some a) \<and> Data a = Some d"
  then have f: "find ends_loop (elems (Actions rfc)) = Some (Some a)" and d: "Data a = Some d"
    by auto
  let ?a' = "a\<lparr>Data := Some (AList.update ''requester'' (JString requester)
                                     (AList.update ''status'' (JString status) d))\<rparr>"
  let ?before = "takeWhile (\<lambda>p. \<not> ends_loop p) (elems (Actions rfc))"
  let ?after = "tl (dropWhile (\<lambda>p. \<not> ends_loop p) (elems (Actions rfc)))"
  have "ends_loop (Some a)" using f by (auto simp: find_Some_iff)
  then have t: "ActionType a = ''load''" by (simp add: ends_loop_def is_load_def LoadAction_def)
  have s: "elems (Actions rfc) = ?before @ Some a # ?after" using find_split [OF f] .
  have u: "UpdateLoadStatus rfc status requester =
                (case Action_ToSha ?a' of
                   Inr sha \<Rightarrow>
                     (rfc\<lparr>Actions := Some (?before @ Some (?a'\<lparr>Action.Signature := sha\<rparr>) # ?after)\<rparr>,
                      Returns None)
                 | Inl err \<Rightarrow>
                     (rfc\<lparr>Actions := Some (?before @ Some ?a' # ?after)\<rparr>, Returns (Some err)))"
    using UpdateLoadStatus_present [OF f, of status requester]
      update_load_action_data [OF d, of status requester]
    by (simp split: sum.splits)
  have e: "(\<forall>kv \<in> set d. encodable (snd kv)) \<longrightarrow>
                 (\<exists>js. Action_json ?a' = Inr js \<and> Action_ToSha ?a' = Inr (sha256_hex js))"
  proof
    assume "\<forall>kv \<in> set d. encodable (snd kv)"
    then have "\<forall>kv \<in> set (AList.update ''requester'' (JString requester)
                                     (AList.update ''status'' (JString status) d)). encodable (snd kv)"
      by (intro set_update_encodable) simp_all
    then have "\<forall>kv \<in> set (elems (Data ?a')). encodable (snd kv)" by simp
    then show "\<exists>js. Action_json ?a' = Inr js \<and> Action_ToSha ?a' = Inr (sha256_hex js)"
      by (rule Action_ToSha_encodable)
  qed
  show "let a' = a\<lparr>Data := Some (AList.update ''requester'' (JString requester)
                                     (AList.update ''status'' (JString status) d))\<rparr>;
             before = takeWhile (\<lambda>p. \<not> ends_loop p) (elems (Actions rfc));
             after = tl (dropWhile (\<lambda>p. \<not> ends_loop p) (elems (Actions rfc)))
         in ActionType a = ''load''
            \<and> elems (Actions rfc) = before @ Some a # after
            \<and> UpdateLoadStatus rfc status requester =
                (case Action_ToSha a' of
                   Inr sha \<Rightarrow>
                     (rfc\<lparr>Actions := Some (before @ Some (a'\<lparr>Action.Signature := sha\<rparr>) # after)\<rparr>,
                      Returns None)
                 | Inl err \<Rightarrow>
                     (rfc\<lparr>Actions := Some (before @ Some a' # after)\<rparr>, Returns (Some err)))
            \<and> ((\<forall>kv \<in> set d. encodable (snd kv)) \<longrightarrow>
                 (\<exists>js. Action_json a' = Inr js \<and> Action_ToSha a' = Inr (sha256_hex js)))"
    unfolding Let_def using t s u e by blast
next
  show "panicked (snd (UpdateLoadStatus rfc status requester)) \<longleftrightarrow> blocked rfc"
    by (rule UpdateLoadStatus_panicked)
next
  assume "blocked rfc"
  then show "fst (UpdateLoadStatus rfc status requester) = rfc"
    by (rule UpdateLoadStatus_blocked)
next
  show "length (filter is_load (elems (Actions (after_updates rfc calls))))
       = (if calls = [] \<or> blocked rfc then length (filter is_load (elems (Actions rfc)))
          else max 1 (length (filter is_load (elems (Actions rfc)))))"
    by (rule after_updates_count)
qed

lemma stored_load_updated:
  "Action_ToSha (stored_load\<lparr>Data := Some [(''status'', JString ''loading''),
                                           (''requester'', JString ''bot'')]\<rparr>)
     = Inr ''10cad162e18c27b5d86335214b51b59ad4adc881d4483e002a88d571cd75e3f7''"
proof -
  have "Action_json (stored_load\<lparr>Data := Some [(''status'', JString ''loading''),
                                           (''requester'', JString ''bot'')]\<rparr>)
     = Inr ''{\"actionType\":\"load\",\"target\":{\"targetType\":\"\",\"targetDescriptor\":\"\"},\"signature\":\"355443728acf3f210fac1a18baf0b7a63f6c9028f016a953e0011f463cc44eda\",\"data\":{\"requester\":\"bot\",\"status\":\"loading\"}}''"
    by (simp add: stored_load_def Target_zero_def json_eval)
  then show ?thesis by (simp add: Action_ToSha_def sha_loading)
qed

theorem UpdateLoadStatus_single_load_witness:
  "find ends_loop (elems (Actions empty_rfc)) = None
   \<and> UpdateLoadStatus empty_rfc ''load_requested'' ''bot''
       = (\<lparr>Actions = Some [Some stored_load], Signature = [], Identifier = []\<rparr>, Returns None)
   \<and> find ends_loop (elems (Actions loading_rfc)) = Some (Some stored_load)
   \<and> UpdateLoadStatus loading_rfc ''loading'' ''bot''
       = (\<lparr>Actions = Some [Some test_action,
            Some \<lparr>ActionType = ''load'', Target = Target_zero,
                   Signature = ''10cad162e18c27b5d86335214b51b59ad4adc881d4483e002a88d571cd75e3f7'',
                   Data = Some [(''status'', JString ''loading''), (''requester'', JString ''bot'')]\<rparr>],
           Signature = [], Identifier = []\<rparr>, Returns None)
   \<and> length (filter is_load (elems (Actions (after_updates empty_rfc
         [(''load_requested'', ''bot''), (''loading'', ''bot''), (''successful'', ''bot'')])))) = 1"
proof -
  note first = UpdateLoadStatus_single_load [of empty_rfc "''load_requested''" "''bot''"
      "[(''load_requested'', ''bot''), (''loading'', ''bot''), (''successful'', ''bot'')]"]
  note second = UpdateLoadStatus_single_load [of loading_rfc "''loading''" "''bot''" "[]"]
  have e: "find ends_loop (elems (Actions empty_rfc)) = None"
    by (simp add: empty_rfc_def)
  have l: "find ends_loop (elems (Actions loading_rfc)) = Some (Some stored_load)
           \<and> Data stored_load
               = Some [(''status'', JString ''load_requested''), (''requester'', JString ''bot'')]"
    by (simp add: loading_rfc_def test_action_def stored_load_def ends_loop_def is_load_def
        LoadAction_def)
  have j: "json_string ''bot'' = [CHR 0x22] @ ''bot'' @ [CHR 0x22]"
    "json_string ''load_requested'' = [CHR 0x22] @ ''load_requested'' @ [CHR 0x22]"
    by (simp_all add: json_string_def dquote_def html_safe_def)
  have a: "UpdateLoadStatus empty_rfc ''load_requested'' ''bot''
       = (\<lparr>Actions = Some [Some stored_load], Signature = [], Identifier = []\<rparr>, Returns None)"
    using first [THEN conjunct1, THEN mp, OF e]
    by (simp add: j sha_load_requested empty_rfc_def stored_load_def)
  have b: "UpdateLoadStatus loading_rfc ''loading'' ''bot''
       = (\<lparr>Actions = Some [Some test_action,
            Some \<lparr>ActionType = ''load'', Target = Target_zero,
                   Signature = ''10cad162e18c27b5d86335214b51b59ad4adc881d4483e002a88d571cd75e3f7'',
                   Data = Some [(''status'', JString ''loading''), (''requester'', JString ''bot'')]\<rparr>],
           Signature = [], Identifier = []\<rparr>, Returns None)"
  proof -
    have "UpdateLoadStatus loading_rfc ''loading'' ''bot''
       = (loading_rfc\<lparr>Actions := Some (takeWhile (\<lambda>p. \<not> ends_loop p) (elems (Actions loading_rfc))
            @ Some (stored_load\<lparr>Data := Some [(''status'', JString ''loading''),
                                                 (''requester'', JString ''bot'')],
                       Action.Signature :=
                         ''10cad162e18c27b5d86335214b51b59ad4adc881d4483e002a88d571cd75e3f7''\<rparr>)
            # tl (dropWhile (\<lambda>p. \<not> ends_loop p) (elems (Actions loading_rfc))))\<rparr>,
          Returns None)"
      using second [THEN conjunct2, THEN conjunct1, THEN spec, THEN spec, THEN mp, OF l]
      by (simp add: Let_def stored_load_updated)
    then show ?thesis
      by (simp add: loading_rfc_def test_action_def stored_load_def ends_loop_def is_load_def
          LoadAction_def)
  qed
  have c: "length (filter is_load (elems (Actions (after_updates empty_rfc
         [(''load_requested'', ''bot''), (''loading'', ''bot''), (''successful'', ''bot'')])))) = 1"
    using first [THEN conjunct2, THEN conjunct2, THEN conjunct2, THEN conjunct2] e
    by (simp add: blocked_def empty_rfc_def)
  from e l a b c show ?thesis by simp
qed

text \<open>
  Claim C4, as stated, fails. This RFC has a load action, one that came without a
  \<^verbatim>\<open>data\<close> member. The call does not overwrite its status and requester and does not
  sign it again: it panics at the first write, and the RFC is as it was.
\<close>

theorem UpdateLoadStatus_leaves_bare_load:
  "elems (Actions bare_load_rfc) = [Some bare_load]
   \<and> ActionType bare_load = ''load''
   \<and> UpdateLoadStatus bare_load_rfc ''loading'' ''bot''
       = (bare_load_rfc, Panics ''assignment to entry in nil map'')"
  by (simp add: bare_load_rfc_def bare_load_def UpdateLoadStatus_def update_load_action_def
      LoadAction_def)

subsection \<open>AddComments\<close>

lemma flat_update:
  "mset (flat (AList.update k (case map_of p k of None \<Rightarrow> [c] | Some cs \<Rightarrow> cs @ [c]) p))
     = mset (flat p) + {#c#}"
proof -
  have "\<And>v0. mset (flat (AList.update k (case map_of p k of None \<Rightarrow> [c] | Some cs \<Rightarrow> cs @ [c]) p))
     = mset (flat p) + {#c#}"
  proof (induction p)
    case Nil
    then show ?case by (simp add: flat_def)
  next
    case (Cons kv p)
    obtain k' v where kv: "kv = (k', v)" by (cases kv)
    show ?case
    proof (cases "k' = k")
      case True
      then show ?thesis by (simp add: kv flat_def)
    next
      case False
      then show ?thesis using Cons.IH by (simp add: kv flat_def)
    qed
  qed
  then show ?thesis .
qed

lemma flat_append_processed: "mset (flat (append_processed p k c)) = mset (flat p) + {#c#}"
  by (simp add: append_processed_def flat_update)

lemma keys_append_processed: "fst ` set (append_processed p k c) = insert k (fst ` set p)"
  by (simp add: append_processed_def dom_update)

lemma inner_fold:
  "mset (flat (foldl (\<lambda>p cmt. append_processed p k (f cmt)) p cmts)) = mset (flat p) + mset (map f cmts)
   \<and> fst ` set (foldl (\<lambda>p cmt. append_processed p k (f cmt)) p cmts)
       = (if cmts = [] then fst ` set p else insert k (fst ` set p))"
  by (induction cmts arbitrary: p) (auto simp: flat_append_processed keys_append_processed)

lemma process_actions_fold:
  "mset (flat (foldl (\<lambda>p action.
              case map_of comments (Action.Signature action) of
                None \<Rightarrow> p
              | Some cmts \<Rightarrow>
                  foldl (\<lambda>p cmt. append_processed p (Action.Signature action)
                                    (action_comment action cmt commenter))
                        p cmts) p as))
     = mset (flat p) + mset (concat (map (\<lambda>a. case map_of comments (Action.Signature a) of
                         None \<Rightarrow> []
                       | Some cmts \<Rightarrow> map (\<lambda>cmt. action_comment a cmt commenter) cmts) as))
   \<and> fst ` set (foldl (\<lambda>p action.
              case map_of comments (Action.Signature action) of
                None \<Rightarrow> p
              | Some cmts \<Rightarrow>
                  foldl (\<lambda>p cmt. append_processed p (Action.Signature action)
                                    (action_comment action cmt commenter))
                        p cmts) p as)
       = fst ` set p \<union> {t. t \<in> Action.Signature ` set as
                           \<and> (\<exists>cmts. map_of comments t = Some cmts \<and> cmts \<noteq> [])}"
proof (induction as arbitrary: p)
  case Nil
  then show ?case by simp
next
  case (Cons a as)
  show ?case
  proof (cases "map_of comments (Action.Signature a)")
    case None
    then show ?thesis using Cons.IH [of p] by auto
  next
    case (Some cmts)
    let ?p' = "foldl (\<lambda>p cmt. append_processed p (Action.Signature a)
                                    (action_comment a cmt commenter)) p cmts"
    from inner_fold [of "Action.Signature a" "\<lambda>cmt. action_comment a cmt commenter" p cmts]
    have m: "mset (flat ?p') = mset (flat p) + mset (map (\<lambda>cmt. action_comment a cmt commenter) cmts)"
      and k: "fst ` set ?p' = (if cmts = [] then fst ` set p else insert (Action.Signature a) (fst ` set p))"
      by auto
    show ?thesis using Cons.IH [of ?p'] Some m k by (auto simp: ac_simps)
  qed
qed


lemma process_actions_present:
  "process_actions (map Some as) comments commenter p =
     Returns (foldl (\<lambda>p action.
              case map_of comments (Action.Signature action) of
                None \<Rightarrow> p
              | Some cmts \<Rightarrow>
                  foldl (\<lambda>p cmt. append_processed p (Action.Signature action)
                                    (action_comment action cmt commenter))
                        p cmts) p as)"
  by (induction as arbitrary: p) auto

lemma process_actions_flat:
  assumes "None \<notin> set (elems (Actions rfc))"
  shows "\<exists>pr. process_actions (elems (Actions rfc)) comments commenter [] = Returns pr
           \<and> mset (flat pr) = mset (action_comments rfc comments commenter)
           \<and> fst ` set pr
               = {t. t \<in> Action.Signature ` set (actions_of rfc)
                     \<and> (\<exists>cmts. map_of comments t = Some cmts \<and> cmts \<noteq> [])}"
proof -
  have "elems (Actions rfc) = map Some (actions_of rfc)"
    using assms by (simp add: actions_of_def map_Some_pointees)
  then have "process_actions (elems (Actions rfc)) comments commenter []
               = Returns (foldl (\<lambda>p action.
              case map_of comments (Action.Signature action) of
                None \<Rightarrow> p
              | Some cmts \<Rightarrow>
                  foldl (\<lambda>p cmt. append_processed p (Action.Signature action)
                                    (action_comment action cmt commenter))
                        p cmts) [] (actions_of rfc))"
    by (simp only: process_actions_present)
  then show ?thesis
    using process_actions_fold [where comments = comments and commenter = commenter and p = "[]"
      and as = "actions_of rfc"]
    by (auto simp: action_comments_def flat_def)
qed

lemma process_dangling_fold:
  assumes "distinct (map fst cs)"
    and "\<forall>(t, cmts) \<in> set cs. t \<in> fst ` set p \<longleftrightarrow> (t \<in> S \<and> cmts \<noteq> [])"
  shows "mset (flat (foldl (\<lambda>p (target, cmts).
              if map_of p target = None
              then foldl (\<lambda>p cmt. append_processed p target (rc target cmt)) p cmts
              else p) p cs))
         = mset (flat p) + mset (concat (map (\<lambda>(target, cmts).
                    if target \<in> S then [] else map (\<lambda>cmt. rc target cmt) cmts) cs))"
  using assms
proof (induction cs arbitrary: p)
  case Nil
  then show ?case by simp
next
  case (Cons c cs)
  obtain t cmts where c: "c = (t, cmts)" by (cases c)
  let ?p' = "if map_of p t = None
              then foldl (\<lambda>p cmt. append_processed p t (rc t cmt)) p cmts else p"
  have inv: "t \<in> fst ` set p \<longleftrightarrow> (t \<in> S \<and> cmts \<noteq> [])"
    using Cons.prems(2) by (auto simp: c)
  have none: "map_of p t = None \<longleftrightarrow> t \<notin> fst ` set p"
    by (simp add: map_of_eq_None_iff)
  have keys: "fst ` set ?p' \<subseteq> insert t (fst ` set p)" "fst ` set p \<subseteq> fst ` set ?p'"
    using inner_fold [of t "rc t" p cmts] by (auto split: if_splits)
  have d: "distinct (map fst cs)" "t \<notin> fst ` set cs"
    using Cons.prems(1) by (auto simp: c)
  have inv': "\<forall>(t', cmts') \<in> set cs. t' \<in> fst ` set ?p' \<longleftrightarrow> (t' \<in> S \<and> cmts' \<noteq> [])"
  proof (clarify)
    fix t' cmts' assume m: "(t', cmts') \<in> set cs"
    then have "t' \<noteq> t" using d(2) by force
    then have "t' \<in> fst ` set ?p' \<longleftrightarrow> t' \<in> fst ` set p" using keys by blast
    also have "\<dots> \<longleftrightarrow> (t' \<in> S \<and> cmts' \<noteq> [])" using Cons.prems(2) m by auto
    finally show "t' \<in> fst ` set ?p' \<longleftrightarrow> (t' \<in> S \<and> cmts' \<noteq> [])" .
  qed
  have step: "mset (flat ?p') = mset (flat p)
                + mset (if t \<in> S then [] else map (\<lambda>cmt. rc t cmt) cmts)"
    using inv none inner_fold [of t "rc t" p cmts] by auto
  have "foldl (\<lambda>p (target, cmts).
              if map_of p target = None
              then foldl (\<lambda>p cmt. append_processed p target (rc target cmt)) p cmts
              else p) p (c # cs)
        = foldl (\<lambda>p (target, cmts).
              if map_of p target = None
              then foldl (\<lambda>p cmt. append_processed p target (rc target cmt)) p cmts
              else p) ?p' cs"
    by (simp add: c)
  then show ?case using Cons.IH [OF d(1) inv'] step by (simp add: c ac_simps)
qed

lemma process_dangling_flat:
  assumes "distinct (map fst comments)"
    and "mset (flat pr) = mset (action_comments rfc comments commenter)"
    and "fst ` set pr
           = {t. t \<in> Action.Signature ` set (actions_of rfc)
                 \<and> (\<exists>cmts. map_of comments t = Some cmts \<and> cmts \<noteq> [])}"
  shows "mset (flat (process_dangling rfc comments commenter pr))
         = mset (action_comments rfc comments commenter) + mset (rfc_comments rfc comments commenter)"
proof -
  have inv: "\<forall>(t, cmts) \<in> set comments.
        t \<in> fst ` set pr \<longleftrightarrow> (t \<in> Action.Signature ` set (actions_of rfc) \<and> cmts \<noteq> [])"
  proof (clarify)
    fix t cmts assume "(t, cmts) \<in> set comments"
    then have "map_of comments t = Some cmts"
      using map_of_eq_Some_iff [OF assms(1)] by blast
    then show "t \<in> fst ` set pr
          \<longleftrightarrow> (t \<in> Action.Signature ` set (actions_of rfc) \<and> cmts \<noteq> [])"
      by (auto simp: assms(3))
  qed
  show ?thesis
    using process_dangling_fold [OF assms(1) inv, of "\<lambda>t cmt. rfc_comment rfc t cmt commenter"]
    by (simp add: process_dangling_def rfc_comments_def assms(2))
qed


lemma flat_mset: "mset (flat p) = sum_mset (image_mset (\<lambda>x. mset (snd x)) (mset p))"
  by (induction p) (simp_all add: flat_def)

lemma ord_flat: "mset (ord p) = mset p \<Longrightarrow> mset (flat (ord p)) = mset (flat p)"
  by (simp add: flat_mset)

lemma action_comment_strings: "string_valued (Data (action_comment a cmt commenter))"
  by (simp add: action_comment_def string_valued_def)

lemma rfc_comment_strings: "string_valued (Data (rfc_comment rfc t cmt commenter))"
  by (auto simp: rfc_comment_def string_valued_def Let_def NoteData_def CommentData_def
      CommenterData_def)

lemma add_actions_strings:
  "\<forall>x \<in> set xs. string_valued (Data x) \<Longrightarrow>
     snd (add_actions rfc xs) = None
     \<and> elems (Actions (fst (add_actions rfc xs)))
         = elems (Actions rfc) @ map (\<lambda>a. Some (signed_action a)) xs"
proof (induction xs arbitrary: rfc)
  case Nil
  then show ?case by simp
next
  case (Cons x xs)
  then obtain h where h: "Action_ToSha x = Inr h"
    using Action_ToSha_strings [of x] by auto
  let ?rfc' = "rfc\<lparr>Actions := append_slice (Actions rfc) (Some (x\<lparr>Action.Signature := h\<rparr>))\<rparr>"
  have "add_actions rfc (x # xs) = add_actions ?rfc' xs"
    using h by (simp add: AddAction_def)
  then show ?case using Cons.IH [of ?rfc'] Cons.prems h by (simp add: signed_action_def)
qed

lemma action_comments_strings:
  "x \<in> set (action_comments rfc comments commenter) \<Longrightarrow> string_valued (Data x)"
  by (auto simp: action_comments_def action_comment_strings split: option.splits)

lemma rfc_comments_strings:
  "x \<in> set (rfc_comments rfc comments commenter) \<Longrightarrow> string_valued (Data x)"
  by (auto simp: rfc_comments_def rfc_comment_strings split: if_splits)

lemma AddComments_result:
  assumes "distinct (map fst comments)" and "\<forall>p. mset (ord p) = mset p"
    and "None \<notin> set (elems (Actions rfc))"
  shows "\<exists>new. snd (AddComments ord rfc comments commenter) = Returns None
           \<and> elems (Actions (fst (AddComments ord rfc comments commenter)))
               = elems (Actions rfc) @ map (\<lambda>a. Some (signed_action a)) new
           \<and> mset new = mset (action_comments rfc comments commenter)
                          + mset (rfc_comments rfc comments commenter)"
proof -
  obtain pr where pr: "process_actions (elems (Actions rfc)) comments commenter [] = Returns pr"
    "mset (flat pr) = mset (action_comments rfc comments commenter)"
    "fst ` set pr = {t. t \<in> Action.Signature ` set (actions_of rfc)
                       \<and> (\<exists>cmts. map_of comments t = Some cmts \<and> cmts \<noteq> [])}"
    using process_actions_flat [OF assms(3)] by blast
  let ?p = "process_dangling rfc comments commenter pr"
  let ?new = "flat (ord ?p)"
  have "mset (ord ?p) = mset ?p" using assms(2) by blast
  then have "mset ?new = mset (flat ?p)" by (rule ord_flat)
  then have m: "mset ?new = mset (action_comments rfc comments commenter)
                          + mset (rfc_comments rfc comments commenter)"
    using process_dangling_flat [OF assms(1) pr(2) pr(3)] by simp
  then have "mset ?new = mset (action_comments rfc comments commenter
                                 @ rfc_comments rfc comments commenter)"
    by simp
  then have s: "set ?new = set (action_comments rfc comments commenter
                                 @ rfc_comments rfc comments commenter)"
    by (rule mset_eq_setD)
  have "\<forall>x \<in> set ?new. string_valued (Data x)"
  proof
    fix x assume "x \<in> set ?new"
    with s have "x \<in> set (action_comments rfc comments commenter)
                 \<or> x \<in> set (rfc_comments rfc comments commenter)" by simp
    then show "string_valued (Data x)"
      using action_comments_strings rfc_comments_strings by blast
  qed
  then have r: "snd (add_actions rfc ?new) = None
     \<and> elems (Actions (fst (add_actions rfc ?new)))
         = elems (Actions rfc) @ map (\<lambda>a. Some (signed_action a)) ?new"
    by (rule add_actions_strings)
  have "AddComments ord rfc comments commenter
          = (fst (add_actions rfc ?new), Returns (snd (add_actions rfc ?new)))"
    by (simp add: AddComments_def pr(1) flat_def split: prod.splits)
  with r m show ?thesis by (metis fst_conv snd_conv)
qed






lemma stored_rfc_actions: "elems (Actions stored_rfc) = [Some signed_test_action]"
  "actions_of stored_rfc = [signed_test_action]"
  by (simp_all add: stored_rfc_def actions_of_def)

lemma signed_test_action_Signature:
  "Action.Signature signed_test_action
     = ''49991c32fc001d99b9c5908005509686aff6ba7d16a14cd3ecaebc5d6d916cf0''"
  by (simp add: signed_test_action_def)




subsection \<open>The RFC's own signature\<close>

lemma add_actions_Signature [simp]:
  "RFC.Signature (fst (add_actions rfc xs)) = RFC.Signature rfc"
proof (induction xs arbitrary: rfc)
  case Nil
  then show ?case by simp
next
  case (Cons x xs)
  show ?case
  proof (cases "AddAction rfc x")
    case (Pair rfc' e)
    then have "RFC.Signature rfc' = RFC.Signature rfc"
      using AddAction_Signature [of rfc x] by simp
    with Pair Cons.IH [of rfc'] show ?thesis by (cases e) auto
  qed
qed

lemma AddComments_Signature [simp]:
  "RFC.Signature (fst (AddComments ord rfc comments commenter)) = RFC.Signature rfc"
  by (simp add: AddComments_def split: outcome.splits prod.splits)
     (metis add_actions_Signature fst_conv)

lemma review_action_Signature:
  "RFC.Signature rfc1 = RFC.Signature rfc
     \<Longrightarrow> review_action unicode_lower data login rfc1 = review_action unicode_lower data login rfc"
  by (simp add: review_action_def)

lemma review_action_strings: "string_valued (Data (review_action unicode_lower data login rfc))"
  by (auto simp: review_action_def Let_def string_valued_def)

lemma review_action_unsigned:
  "Action.Signature (review_action unicode_lower data login rfc) = []"
  by (simp add: review_action_def Let_def)

lemma action_comments_unsigned:
  "x \<in> set (action_comments rfc comments commenter) \<Longrightarrow> Action.Signature x = []"
  by (auto simp: action_comments_def action_comment_def split: option.splits)

lemma rfc_comments_unsigned:
  "x \<in> set (rfc_comments rfc comments commenter) \<Longrightarrow> Action.Signature x = []"
  by (auto simp: rfc_comments_def rfc_comment_def Let_def split: if_splits)

lemma AddComments_signs:
  assumes "distinct (map fst comments)" and "\<forall>p. mset (ord p) = mset p"
    and "None \<notin> set (elems (Actions rfc))"
  shows "\<exists>new. AddComments ord rfc comments commenter
                  = (fst (AddComments ord rfc comments commenter), Returns None)
           \<and> elems (Actions (fst (AddComments ord rfc comments commenter)))
               = elems (Actions rfc) @ map (\<lambda>a. Some (signed_action a)) new
           \<and> mset new = mset (action_comments rfc comments commenter)
                          + mset (rfc_comments rfc comments commenter)
           \<and> (\<forall>a \<in> set new. Action.Signature a = []
                 \<and> Action_ToSha a = Inr (Action.Signature (signed_action a)))"
proof -
  obtain new where new: "snd (AddComments ord rfc comments commenter) = Returns None"
      "elems (Actions (fst (AddComments ord rfc comments commenter)))
               = elems (Actions rfc) @ map (\<lambda>a. Some (signed_action a)) new"
      "mset new = mset (action_comments rfc comments commenter)
                          + mset (rfc_comments rfc comments commenter)"
    using AddComments_result [OF assms] by blast
  from new(3) have "mset new = mset (action_comments rfc comments commenter
                                 @ rfc_comments rfc comments commenter)" by simp
  then have "set new = set (action_comments rfc comments commenter
                             @ rfc_comments rfc comments commenter)"
    by (rule mset_eq_setD)
  then have s: "set new = set (action_comments rfc comments commenter)
                          \<union> set (rfc_comments rfc comments commenter)"
    by simp
  have "\<forall>a \<in> set new. Action.Signature a = []
                 \<and> Action_ToSha a = Inr (Action.Signature (signed_action a))"
  proof
    fix a assume "a \<in> set new"
    with s have m: "a \<in> set (action_comments rfc comments commenter)
                    \<or> a \<in> set (rfc_comments rfc comments commenter)" by simp
    then have "Action.Signature a = []"
      using action_comments_unsigned rfc_comments_unsigned by blast
    moreover from m have "string_valued (Data a)"
      using action_comments_strings rfc_comments_strings by blast
    then have "Action_ToSha a = Inr (Action.Signature (signed_action a))"
      by (rule signed_action_hash)
    ultimately show "Action.Signature a = []
                 \<and> Action_ToSha a = Inr (Action.Signature (signed_action a))" by simp
  qed
  moreover have "AddComments ord rfc comments commenter
                  = (fst (AddComments ord rfc comments commenter), Returns None)"
    using new(1) by (cases "AddComments ord rfc comments commenter") simp
  ultimately show ?thesis using new(2,3) by blast
qed

lemma record_review_Signature:
  "RFC.Signature (fst (record_review unicode_lower ord data login rfc)) = RFC.Signature rfc"
proof (cases "AddComments ord rfc (Comments data) login")
  case (Pair rfc1 r)
  then have s1: "RFC.Signature rfc1 = RFC.Signature rfc"
    using AddComments_Signature [of ord rfc "Comments data" login] by simp
  show ?thesis
  proof (cases r)
    case (Panics msg)
    with Pair s1 show ?thesis by (simp add: record_review_def)
  next
    case (Returns e)
    show ?thesis
    proof (cases e)
      case None
      obtain rfc2 e2 where a: "AddAction rfc1 (review_action unicode_lower data login rfc1) = (rfc2, e2)"
        by (cases "AddAction rfc1 (review_action unicode_lower data login rfc1)")
      then have "RFC.Signature rfc2 = RFC.Signature rfc1"
        using AddAction_Signature [of rfc1 "review_action unicode_lower data login rfc1"] by simp
      with Pair Returns None s1 a show ?thesis by (simp add: record_review_def)
    next
      case (Some err)
      with Pair Returns s1 show ?thesis by (simp add: record_review_def)
    qed
  qed
qed

text \<open>
  Claim C2, as amended. \<^verbatim>\<open>AddAction\<close>, \<^verbatim>\<open>AddComments\<close> and the ledger part of
  \<^verbatim>\<open>ReviewRequest\<close> (the comments and the review action, before the RFC is persisted)
  sign the action they add and leave the RFC's own \<^verbatim>\<open>Signature\<close> field as it was: none
  of them computes the RFC's hash again.

  \<^verbatim>\<open>AddAction\<close> appends one entry, the action it was given with the hash of that action
  as signature, and changes nothing else; when the encoder refuses the action it returns
  the error and changes nothing. For an RFC without nil entry and a map of comments,
  \<^verbatim>\<open>AddComments\<close> returns no error and appends the comments of claim C5, each built with
  an empty signature and stored with its hash as signature; the ledger part of
  \<^verbatim>\<open>ReviewRequest\<close> appends those comments and then, unless the review is a plain comment
  without top-level comment, the review action, signed in the same way. After each of them
  the RFC's signature is the one it had before.
\<close>

theorem adds_leave_RFC_signature:
  assumes "\<forall>p. mset (ord p) = mset p" and "None \<notin> set (elems (Actions rfc))"
    and "distinct (map fst comments)" and "distinct (map fst (Comments data))"
  shows "(case Action_ToSha action of
            Inr sha \<Rightarrow>
              AddAction rfc action =
                (rfc\<lparr>Actions := Some (elems (Actions rfc)
                                        @ [Some (action\<lparr>Action.Signature := sha\<rparr>)])\<rparr>, None)
          | Inl err \<Rightarrow> AddAction rfc action = (rfc, Some err))
       \<and> RFC.Signature (fst (AddAction rfc action)) = RFC.Signature rfc
       \<and> (\<exists>new. AddComments ord rfc comments commenter
                    = (fst (AddComments ord rfc comments commenter), Returns None)
             \<and> elems (Actions (fst (AddComments ord rfc comments commenter)))
                 = elems (Actions rfc) @ map (\<lambda>a. Some (signed_action a)) new
             \<and> mset new = mset (action_comments rfc comments commenter)
                            + mset (rfc_comments rfc comments commenter)
             \<and> (\<forall>a \<in> set new. Action.Signature a = []
                   \<and> Action_ToSha a = Inr (Action.Signature (signed_action a))))
       \<and> RFC.Signature (fst (AddComments ord rfc comments commenter)) = RFC.Signature rfc
       \<and> (\<exists>new. record_review unicode_lower ord data login rfc
                    = (fst (record_review unicode_lower ord data login rfc), Returns None)
             \<and> elems (Actions (fst (record_review unicode_lower ord data login rfc)))
                 = elems (Actions rfc) @ map (\<lambda>a. Some (signed_action a)) new
             \<and> (\<exists>cs. new = cs @ (if Type data \<noteq> COMMENT_REVIEW_TYPE \<or> TopLevelComment data \<noteq> []
                                  then [review_action unicode_lower data login rfc] else [])
                    \<and> mset cs = mset (action_comments rfc (Comments data) login)
                                  + mset (rfc_comments rfc (Comments data) login))
             \<and> (\<forall>a \<in> set new. Action.Signature a = []
                   \<and> Action_ToSha a = Inr (Action.Signature (signed_action a))))
       \<and> RFC.Signature (fst (record_review unicode_lower ord data login rfc)) = RFC.Signature rfc"
proof (intro conjI)
  show "case Action_ToSha action of
            Inr sha \<Rightarrow>
              AddAction rfc action =
                (rfc\<lparr>Actions := Some (elems (Actions rfc)
                                        @ [Some (action\<lparr>Action.Signature := sha\<rparr>)])\<rparr>, None)
          | Inl err \<Rightarrow> AddAction rfc action = (rfc, Some err)"
    by (simp add: AddAction_def append_slice_def split: sum.splits)
next
  show "RFC.Signature (fst (AddAction rfc action)) = RFC.Signature rfc" by simp
next
  show "\<exists>new. AddComments ord rfc comments commenter
                    = (fst (AddComments ord rfc comments commenter), Returns None)
             \<and> elems (Actions (fst (AddComments ord rfc comments commenter)))
                 = elems (Actions rfc) @ map (\<lambda>a. Some (signed_action a)) new
             \<and> mset new = mset (action_comments rfc comments commenter)
                            + mset (rfc_comments rfc comments commenter)
             \<and> (\<forall>a \<in> set new. Action.Signature a = []
                   \<and> Action_ToSha a = Inr (Action.Signature (signed_action a)))"
    by (rule AddComments_signs [OF assms(3) assms(1) assms(2)])
next
  show "RFC.Signature (fst (AddComments ord rfc comments commenter)) = RFC.Signature rfc" by simp
next
  define rfc1 where "rfc1 = fst (AddComments ord rfc (Comments data) login)"
  let ?ra = "review_action unicode_lower data login rfc"
  let ?rv = "if Type data \<noteq> COMMENT_REVIEW_TYPE \<or> TopLevelComment data \<noteq> [] then [?ra] else []"
  obtain cs where cs: "AddComments ord rfc (Comments data) login = (rfc1, Returns None)"
      "elems (Actions rfc1) = elems (Actions rfc) @ map (\<lambda>a. Some (signed_action a)) cs"
      "mset cs = mset (action_comments rfc (Comments data) login)
                   + mset (rfc_comments rfc (Comments data) login)"
      "\<forall>a \<in> set cs. Action.Signature a = []
           \<and> Action_ToSha a = Inr (Action.Signature (signed_action a))"
    using AddComments_signs [OF assms(4) assms(1) assms(2), of login] unfolding rfc1_def by blast
  have "RFC.Signature rfc1 = RFC.Signature rfc" by (simp add: rfc1_def)
  then have ra: "review_action unicode_lower data login rfc1 = ?ra"
    by (rule review_action_Signature)
  have sra: "string_valued (Data ?ra)" by (rule review_action_strings)
  have r: "record_review unicode_lower ord data login rfc
             = (if Type data \<noteq> COMMENT_REVIEW_TYPE \<or> TopLevelComment data \<noteq> []
                then (rfc1\<lparr>Actions := Some (elems (Actions rfc1) @ [Some (signed_action ?ra)])\<rparr>,
                      Returns None)
                else (rfc1, Returns None))"
    using AddAction_signed [OF sra, of rfc1] by (simp add: record_review_def cs(1) ra)
  have e: "elems (Actions (fst (record_review unicode_lower ord data login rfc)))
             = elems (Actions rfc) @ map (\<lambda>a. Some (signed_action a)) (cs @ ?rv)"
    by (simp add: r cs(2))
  have h: "\<forall>a \<in> set (cs @ ?rv). Action.Signature a = []
           \<and> Action_ToSha a = Inr (Action.Signature (signed_action a))"
    using cs(4) review_action_unsigned [of unicode_lower data login rfc]
      signed_action_hash [OF sra] by auto
  have n: "record_review unicode_lower ord data login rfc
             = (fst (record_review unicode_lower ord data login rfc), Returns None)"
    by (simp add: r)
  show "\<exists>new. record_review unicode_lower ord data login rfc
                    = (fst (record_review unicode_lower ord data login rfc), Returns None)
             \<and> elems (Actions (fst (record_review unicode_lower ord data login rfc)))
                 = elems (Actions rfc) @ map (\<lambda>a. Some (signed_action a)) new
             \<and> (\<exists>cs. new = cs @ (if Type data \<noteq> COMMENT_REVIEW_TYPE \<or> TopLevelComment data \<noteq> []
                                  then [review_action unicode_lower data login rfc] else [])
                    \<and> mset cs = mset (action_comments rfc (Comments data) login)
                                  + mset (rfc_comments rfc (Comments data) login))
             \<and> (\<forall>a \<in> set new. Action.Signature a = []
                   \<and> Action_ToSha a = Inr (Action.Signature (signed_action a)))"
    using n e cs(3) h by blast
next
  show "RFC.Signature (fst (record_review unicode_lower ord data login rfc)) = RFC.Signature rfc"
    by (rule record_review_Signature)
qed

lemma comment_review_fields:
  "Type comment_review = ''COMMENT''" "TopLevelComment comment_review = ''nice''"
  "Comments comment_review = []" "RFCIdentifier comment_review = ''123456''"
  "LoadOnApproval comment_review = False"
  by (simp_all add: comment_review_def)

theorem adds_leave_RFC_signature_witness:
  "(\<forall>p. mset (keep_order p) = mset p) \<and> None \<notin> set (elems (Actions stored_rfc))
   \<and> distinct (map fst review_comments) \<and> distinct (map fst (Comments comment_review))
   \<and> AddAction stored_rfc test_action
       = (stored_rfc\<lparr>Actions := Some [Some signed_test_action, Some signed_test_action]\<rparr>, None)
   \<and> length (elems (Actions (fst (AddComments keep_order stored_rfc review_comments ''alice'')))) = 3
   \<and> RFC.Signature (fst (AddComments keep_order stored_rfc review_comments ''alice''))
       = ''7fe5c325b99df102515c1f8d5e1cdde084dc9beabec4a346f07dcd90d4ddb4b1''
   \<and> length (elems (Actions (fst (record_review no_unicode keep_order comment_review ''alice''
                                     stored_rfc)))) = 2
   \<and> RFC.Signature (fst (record_review no_unicode keep_order comment_review ''alice'' stored_rfc))
       = ''7fe5c325b99df102515c1f8d5e1cdde084dc9beabec4a346f07dcd90d4ddb4b1''"
proof -
  have k: "\<forall>p. mset (keep_order p) = mset p" by (simp add: keep_order_def)
  have n: "None \<notin> set (elems (Actions stored_rfc))" by (simp add: stored_rfc_actions)
  have d: "distinct (map fst review_comments)" by (simp add: review_comments_def)
  have e: "distinct (map fst (Comments comment_review))" by (simp add: comment_review_fields)
  note t = adds_leave_RFC_signature [OF k n d e, where action = test_action
      and commenter = "''alice''" and login = "''alice''" and unicode_lower = no_unicode]
  have a: "AddAction stored_rfc test_action
       = (stored_rfc\<lparr>Actions := Some [Some signed_test_action, Some signed_test_action]\<rparr>, None)"
    using t [THEN conjunct1]
    by (simp add: test_action_ToSha stored_rfc_actions signed_test_action_def)
  obtain new where new:
      "elems (Actions (fst (AddComments keep_order stored_rfc review_comments ''alice'')))
         = elems (Actions stored_rfc) @ map (\<lambda>a. Some (signed_action a)) new"
      "mset new = mset (action_comments stored_rfc review_comments ''alice'')
                    + mset (rfc_comments stored_rfc review_comments ''alice'')"
    using t by blast
  have "length new = length (action_comments stored_rfc review_comments ''alice'')
                       + length (rfc_comments stored_rfc review_comments ''alice'')"
    using new(2) by (metis length_append mset_append mset_eq_length)
  then have "length new = 2"
    by (simp add: action_comments_def rfc_comments_def stored_rfc_actions
        signed_test_action_Signature review_comments_def)
  then have b: "length (elems (Actions (fst (AddComments keep_order stored_rfc review_comments
                                              ''alice'')))) = 3"
    by (simp add: new(1) stored_rfc_actions)
  obtain new' cs where new':
      "elems (Actions (fst (record_review no_unicode keep_order comment_review ''alice'' stored_rfc)))
         = elems (Actions stored_rfc) @ map (\<lambda>a. Some (signed_action a)) new'"
      "new' = cs @ (if Type comment_review \<noteq> COMMENT_REVIEW_TYPE
                       \<or> TopLevelComment comment_review \<noteq> []
                    then [review_action no_unicode comment_review ''alice'' stored_rfc] else [])"
      "mset cs = mset (action_comments stored_rfc (Comments comment_review) ''alice'')
                   + mset (rfc_comments stored_rfc (Comments comment_review) ''alice'')"
    using t by blast
  have "cs = []"
    using new'(3) by (simp add: comment_review_fields action_comments_def rfc_comments_def
        stored_rfc_actions)
  then have "length new' = 1" by (simp add: new'(2) comment_review_fields)
  then have c: "length (elems (Actions (fst (record_review no_unicode keep_order comment_review
                                               ''alice'' stored_rfc)))) = 2"
    by (simp add: new'(1) stored_rfc_actions)
  have s: "RFC.Signature (fst (AddComments keep_order stored_rfc review_comments ''alice''))
             = ''7fe5c325b99df102515c1f8d5e1cdde084dc9beabec4a346f07dcd90d4ddb4b1''"
    "RFC.Signature (fst (record_review no_unicode keep_order comment_review ''alice'' stored_rfc))
             = ''7fe5c325b99df102515c1f8d5e1cdde084dc9beabec4a346f07dcd90d4ddb4b1''"
    using t by (simp_all add: stored_rfc_def)
  from k n d e a b c s show ?thesis by simp
qed

lemma sha_stale_unsigned:
  "sha256_hex ''{\"actions\":[{\"actionType\":\"add\",\"target\":{\"targetType\":\"item\",\"targetDescriptor\":\"entity\"},\"signature\":\"49991c32fc001d99b9c5908005509686aff6ba7d16a14cd3ecaebc5d6d916cf0\",\"data\":{\"id\":\"123\"}}]}''
     = ''0017df5e9bd353b53eafc8d4e4279f2eb0021da36bce96079aaa01954c7c249c''"
  by (simp add: sha_eval)

lemma sha_stale_signed:
  "sha256_hex ''{\"actions\":[{\"actionType\":\"add\",\"target\":{\"targetType\":\"item\",\"targetDescriptor\":\"entity\"},\"signature\":\"49991c32fc001d99b9c5908005509686aff6ba7d16a14cd3ecaebc5d6d916cf0\",\"data\":{\"id\":\"123\"}}],\"signature\":\"f18c3913e5bcaa9ffd1d1d6cfea3f4ce3516c66c060676a1759fb5d3202e7496\"}''
     = ''e0f79af248ea6d3f36de3765eb3c0a0076bb6f72bd3c45b8230fa88dd59a904c''"
  by (simp add: sha_eval)

lemma AddAction_signed_empty:
  "AddAction signed_empty_rfc test_action
     = (\<lparr>Actions = Some [Some signed_test_action],
         Signature = ''f18c3913e5bcaa9ffd1d1d6cfea3f4ce3516c66c060676a1759fb5d3202e7496'',
         Identifier = []\<rparr>, None)"
  by (simp add: AddAction_def test_action_ToSha signed_empty_rfc_def empty_rfc_def
      append_slice_def signed_test_action_def)

lemma stale_rfc_json:
  "RFC_json \<lparr>Actions = Some [Some signed_test_action],
         Signature = ''f18c3913e5bcaa9ffd1d1d6cfea3f4ce3516c66c060676a1759fb5d3202e7496'',
         Identifier = []\<rparr>
     = Inr ''{\"actions\":[{\"actionType\":\"add\",\"target\":{\"targetType\":\"item\",\"targetDescriptor\":\"entity\"},\"signature\":\"49991c32fc001d99b9c5908005509686aff6ba7d16a14cd3ecaebc5d6d916cf0\",\"data\":{\"id\":\"123\"}}],\"signature\":\"f18c3913e5bcaa9ffd1d1d6cfea3f4ce3516c66c060676a1759fb5d3202e7496\"}''"
  by (simp add: RFC_json_def Actions_json_def Action_pointer_json_def signed_test_action_json
      omitempty_string_def json_string_def dquote_def html_safe_def)

lemma stale_rfc_json_unsigned:
  "RFC_json \<lparr>Actions = Some [Some signed_test_action], Signature = [], Identifier = []\<rparr>
     = Inr ''{\"actions\":[{\"actionType\":\"add\",\"target\":{\"targetType\":\"item\",\"targetDescriptor\":\"entity\"},\"signature\":\"49991c32fc001d99b9c5908005509686aff6ba7d16a14cd3ecaebc5d6d916cf0\",\"data\":{\"id\":\"123\"}}]}''"
  by (simp add: RFC_json_def Actions_json_def Action_pointer_json_def signed_test_action_json
      omitempty_string_def json_string_def dquote_def html_safe_def)

text \<open>
  Claim C2, as stated, fails. After \<^verbatim>\<open>AddAction\<close> on the empty RFC the signature is
  still empty, which is no hash. And after \<^verbatim>\<open>AddAction\<close> on the empty RFC that carries
  its hash as signature, the signature is still that hash of the empty RFC: it is neither
  the hash of the RFC as it now stands nor the hash of it with the signature left out.
\<close>

theorem AddAction_leaves_signature_stale:
  "RFC.Signature (fst (AddAction empty_rfc test_action)) = []
   \<and> RFC_ToSha (fst (AddAction empty_rfc test_action)) \<noteq> Inr []
   \<and> RFC_ToSha empty_rfc = Inr (RFC.Signature signed_empty_rfc)
   \<and> RFC.Signature (fst (AddAction signed_empty_rfc test_action)) = RFC.Signature signed_empty_rfc
   \<and> RFC_ToSha (fst (AddAction signed_empty_rfc test_action))
       \<noteq> Inr (RFC.Signature (fst (AddAction signed_empty_rfc test_action)))
   \<and> RFC_ToSha ((fst (AddAction signed_empty_rfc test_action))\<lparr>RFC.Signature := []\<rparr>)
       \<noteq> Inr (RFC.Signature (fst (AddAction signed_empty_rfc test_action)))"
proof -
  have s: "RFC.Signature (fst (AddAction empty_rfc test_action)) = []"
    by (simp add: empty_rfc_def)
  have n: "RFC_ToSha (fst (AddAction empty_rfc test_action)) \<noteq> Inr []"
  proof
    assume "RFC_ToSha (fst (AddAction empty_rfc test_action)) = Inr []"
    then obtain js where "sha256_hex js = []"
      by (auto simp: RFC_ToSha_def split: sum.splits)
    then show False using sha256_hex_length [of js] by simp
  qed
  have a: "RFC_ToSha (fst (AddAction signed_empty_rfc test_action))
             = Inr ''e0f79af248ea6d3f36de3765eb3c0a0076bb6f72bd3c45b8230fa88dd59a904c''"
    by (simp add: AddAction_signed_empty RFC_ToSha_def stale_rfc_json sha_stale_signed)
  have b: "RFC_ToSha ((fst (AddAction signed_empty_rfc test_action))\<lparr>RFC.Signature := []\<rparr>)
             = Inr ''0017df5e9bd353b53eafc8d4e4279f2eb0021da36bce96079aaa01954c7c249c''"
    by (simp add: AddAction_signed_empty RFC_ToSha_def stale_rfc_json_unsigned sha_stale_unsigned)
  have c: "RFC.Signature signed_empty_rfc
             = ''f18c3913e5bcaa9ffd1d1d6cfea3f4ce3516c66c060676a1759fb5d3202e7496''"
    by (simp add: signed_empty_rfc_def)
  show ?thesis
    using s n by (simp add: a b c empty_rfc_ToSha)
qed

subsection \<open>SubmitRequest\<close>

text \<open>
  Claim C7. Once the RFC is signed and the branch is created: when \<^verbatim>\<open>CreateFile\<close>
  fails, \<^verbatim>\<open>SubmitRequest\<close> calls \<^verbatim>\<open>DeleteBranch\<close> on the branch and returns the
  error of \<^verbatim>\<open>CreateFile\<close>, whatever \<^verbatim>\<open>DeleteBranch\<close> returns; and when
  \<^verbatim>\<open>CreateFile\<close> succeeds and \<^verbatim>\<open>CreatePullRequest\<close> fails, it calls
  \<^verbatim>\<open>DeleteBranch\<close> and returns the error of \<^verbatim>\<open>CreatePullRequest\<close>. The backend is
  left in the state that \<^verbatim>\<open>DeleteBranch\<close> leaves.
\<close>

theorem SubmitRequest_compensates:
  assumes "RFC_ToSha data = Inr rfcSignature"
    and "sign_actions (elems (Actions data)) = Returns (Inr actions')"
    and "CreateBranch git (newId s) BASE_BRANCH s = (None, s1)"
  shows "(CreateFile git (newId s) (newId s) (signed data rfcSignature actions') s1 = (Some err, s2)
          \<longrightarrow> SubmitRequest git newId data s
                = (Returns (Inl err), snd (DeleteBranch git (newId s) s2)))
       \<and> (CreateFile git (newId s) (newId s) (signed data rfcSignature actions') s1 = (None, s2)
          \<and> CreatePullRequest git (newId s) BASE_BRANCH s2 = (Some err, s3)
          \<longrightarrow> SubmitRequest git newId data s
                = (Returns (Inl err), snd (DeleteBranch git (newId s) s3)))"
  using assms by (auto simp: SubmitRequest_def signed_def Let_def split: prod.splits)

theorem SubmitRequest_compensates_witness:
  "SubmitRequest (mockGit fail_file_and_delete OtherPullRequest [] []) test_identifier empty_rfc []
     = (Returns (Inl (ClientError ''create file error'')),
        [CreateBranch_call ''test-identifier'' ''main'',
         CreateFile_call ''test-identifier'' ''test-identifier''
           (empty_rfc\<lparr>RFC.Signature := sha256_hex ''{\"actions\":null}''\<rparr>),
         DeleteBranch_call ''test-identifier''])
   \<and> SubmitRequest (mockGit fail_pull_request_and_delete OtherPullRequest [] []) test_identifier
       empty_rfc []
     = (Returns (Inl (ClientError ''create pull request error'')),
        [CreateBranch_call ''test-identifier'' ''main'',
         CreateFile_call ''test-identifier'' ''test-identifier''
           (empty_rfc\<lparr>RFC.Signature := sha256_hex ''{\"actions\":null}''\<rparr>),
         CreatePullRequest_call ''test-identifier'' ''main'',
         DeleteBranch_call ''test-identifier''])"
proof -
  have h1: "RFC_ToSha empty_rfc = Inr (sha256_hex ''{\"actions\":null}'')"
    by (simp add: RFC_ToSha_def empty_rfc_json)
  have h2: "sign_actions (elems (Actions empty_rfc)) = Returns (Inr [])"
    by (simp add: empty_rfc_def)
  have h3: "CreateBranch (mockGit fail_file_and_delete OtherPullRequest [] []) (test_identifier [])
              BASE_BRANCH [] = (None, [CreateBranch_call ''test-identifier'' ''main''])"
    by (simp add: mockGit_def test_identifier_def BASE_BRANCH_def)
  have h4: "CreateBranch (mockGit fail_pull_request_and_delete OtherPullRequest [] [])
              (test_identifier []) BASE_BRANCH []
              = (None, [CreateBranch_call ''test-identifier'' ''main''])"
    by (simp add: mockGit_def test_identifier_def BASE_BRANCH_def)
  show ?thesis
    using SubmitRequest_compensates [where data = empty_rfc and newId = test_identifier
        and git = "mockGit fail_file_and_delete OtherPullRequest [] []" and s = "[]"
        and err = "ClientError ''create file error''"
        and ?s2.0 = "[CreateBranch_call ''test-identifier'' ''main'',
             CreateFile_call ''test-identifier'' ''test-identifier''
               (empty_rfc\<lparr>RFC.Signature := sha256_hex ''{\"actions\":null}''\<rparr>)]",
        OF h1 h2 h3]
      SubmitRequest_compensates [where data = empty_rfc and newId = test_identifier
        and git = "mockGit fail_pull_request_and_delete OtherPullRequest [] []" and s = "[]"
        and err = "ClientError ''create pull request error''"
        and ?s2.0 = "[CreateBranch_call ''test-identifier'' ''main'',
             CreateFile_call ''test-identifier'' ''test-identifier''
               (empty_rfc\<lparr>RFC.Signature := sha256_hex ''{\"actions\":null}''\<rparr>)]"
        and ?s3.0 = "[CreateBranch_call ''test-identifier'' ''main'',
             CreateFile_call ''test-identifier'' ''test-identifier''
               (empty_rfc\<lparr>RFC.Signature := sha256_hex ''{\"actions\":null}''\<rparr>),
             CreatePullRequest_call ''test-identifier'' ''main'']",
        OF h1 h2 h4]
    by (simp add: mockGit_def test_identifier_def signed_def empty_rfc_def BASE_BRANCH_def)
qed

subsection \<open>ReviewRequest\<close>



lemma stored_rfc_json: "RFC_json stored_rfc = Inr stored_content"
  by (simp add: stored_rfc_def signed_test_action_def test_action_def stored_content_def
      json_eval)

lemma lower_comment: "ToLower no_unicode ''COMMENT'' = ''comment''"
  by (simp add: ToLower_def lower_ascii_def char_of_def bit_iff_odd_drop_bit)

lemma review_action_shape:
  "ActionType (review_action unicode_lower data login rfc) = ToLower unicode_lower (Type data)
   \<and> Target (review_action unicode_lower data login rfc)
       = \<lparr>TargetType = ''rfc'', TargetDescriptor = [], LookupKey = ''signature'',
          LookupValue = RFC.Signature rfc\<rparr>"
  by (simp add: review_action_def Let_def SignatureLookupKey_def)

lemma review_action_reviewer:
  assumes "Type data \<noteq> COMMENT_REVIEW_TYPE"
  shows "map_of (elems (Data (review_action unicode_lower data login rfc)))
           = (if TopLevelComment data = [] then [''reviewer'' \<mapsto> JString login]
              else [''reviewer'' \<mapsto> JString login, ''comment'' \<mapsto> JString (TopLevelComment data)])"
  using assms by (auto simp: review_action_def Let_def ReviewerData_def update_conv')

lemma review_action_comment_key:
  assumes "Type data = COMMENT_REVIEW_TYPE" and "TopLevelComment data \<noteq> []"
  shows "Data (review_action unicode_lower data login rfc)
           = Some [(''comment'', JString (TopLevelComment data))]"
  using assms by (simp add: review_action_def Let_def CommentData_def)

lemma review_action_comment:
  "review_action no_unicode comment_review login rfc =
     \<lparr>ActionType = ''comment'',
      Target = \<lparr>TargetType = ''rfc'', TargetDescriptor = [], LookupKey = ''signature'',
                LookupValue = RFC.Signature rfc\<rparr>,
      Signature = [],
      Data = Some [(''comment'', JString ''nice'')]\<rparr>"
  by (simp add: review_action_def comment_review_fields COMMENT_REVIEW_TYPE_def CommentData_def
      SignatureLookupKey_def lower_comment Let_def)

lemma foldl_keep: "foldl (\<lambda>p a. p) p xs = p"
  by (induction xs) auto

lemma record_review_comment:
  assumes "None \<notin> set (elems (Actions rfc))"
  shows "record_review no_unicode keep_order comment_review login rfc =
     (rfc\<lparr>Actions := Some (elems (Actions rfc) @ [Some (signed_action
        \<lparr>ActionType = ''comment'',
         Target = \<lparr>TargetType = ''rfc'', TargetDescriptor = [], LookupKey = ''signature'',
                   LookupValue = RFC.Signature rfc\<rparr>,
         Signature = [],
         Data = Some [(''comment'', JString ''nice'')]\<rparr>)])\<rparr>, Returns None)"
proof -
  have "elems (Actions rfc) = map Some (actions_of rfc)"
    using assms by (simp add: actions_of_def map_Some_pointees)
  then have "process_actions (elems (Actions rfc)) [] login [] = Returns []"
    by (simp add: process_actions_present foldl_keep)
  then have "AddComments keep_order rfc [] login = (rfc, Returns None)"
    by (simp add: AddComments_def process_dangling_def keep_order_def)
  then show ?thesis
    by (simp add: record_review_def comment_review_fields COMMENT_REVIEW_TYPE_def
        review_action_comment AddAction_signed string_valued_def)
qed

text \<open>
  Claim C3. The review action that \<^verbatim>\<open>ReviewRequest\<close> appends targets the RFC and has
  the lower-cased review type as its action type, but for a \<^verbatim>\<open>COMMENT\<close> review the
  login is written under the key \<^verbatim>\<open>comment\<close>, not \<^verbatim>\<open>commenter\<close>, and the
  top-level comment, which such a review must have to get the action at all, then
  overwrites it. Here the user alice reviews the stored RFC with the comment
  \<^verbatim>\<open>nice\<close>: the RFC handed to \<^verbatim>\<open>UpdateFile\<close> gains one action whose data is
  \<^verbatim>\<open>{"comment": "nice"}\<close>, and her login is nowhere in it.
\<close>

theorem comment_review_loses_login:
  "ReviewRequest (mockGit never_fails OtherPullRequest ''alice'' stored_content) unmarshal_stored
     no_unicode keep_order comment_review []
   = (Returns (Inr (reviewed_message ''123456'' ''COMMENT'', None)),
      [GetPullRequest_call ''123456'', GetUserLogin_call, GetRFCContents_call ''123456'',
       UpdateFile_call OtherPullRequest
         (stored_rfc\<lparr>Actions := Some (elems (Actions stored_rfc) @ [Some (signed_action
            \<lparr>ActionType = ''comment'',
             Target = \<lparr>TargetType = ''rfc'', TargetDescriptor = [], LookupKey = ''signature'',
                       LookupValue = RFC.Signature stored_rfc\<rparr>,
             Signature = [],
             Data = Some [(''comment'', JString ''nice'')]\<rparr>)])\<rparr>),
       CreateReview_call OtherPullRequest comment_review])"
proof -
  have "None \<notin> set (elems (Actions stored_rfc))" by (simp add: stored_rfc_actions)
  then show ?thesis
    by (simp add: ReviewRequest_def mockGit_def never_fails_def unmarshal_stored_def
        record_review_comment comment_review_fields COMMENT_REVIEW_TYPE_def
        APPROVE_REVIEW_TYPE_def)
qed


subsection \<open>GetMergeability\<close>

declare poll_status.simps [simp del] poll_pr.simps [simp del]

lemma pending_until_less:
  "pending_until g ref k \<Longrightarrow> i < k \<Longrightarrow>
     \<exists>st. GetCombinedStatus g i ref = Inr st \<and> State st = Some MERGEABILITY_PENDING_STATE"
  by (induction k) (auto simp: less_Suc_eq split: sum.splits)

lemma poll_status_skip:
  assumes "pending_until g ref k" and "j \<le> k" and "k \<le> MERGEABILITY_RETRY_COUNT"
  shows "poll_status g ref j = poll_status g ref k"
  using assms(2)
proof (induction "k - j" arbitrary: j)
  case 0
  then show ?case by simp
next
  case (Suc d)
  then have jk: "j < k" by simp
  then obtain st where "GetCombinedStatus g j ref = Inr st"
      "State st = Some MERGEABILITY_PENDING_STATE"
    using pending_until_less [OF assms(1)] by blast
  moreover have "j < MERGEABILITY_RETRY_COUNT" using jk assms(3) by simp
  ultimately have "poll_status g ref j = poll_status g ref (j + 1)"
    by (subst poll_status.simps) simp
  moreover have "poll_status g ref (j + 1) = poll_status g ref k"
    using Suc.hyps(1) [of "j + 1"] Suc.hyps(2) jk by simp
  ultimately show ?case by simp
qed

lemma poll_status_error:
  assumes "pending_until g ref k" and "k < MERGEABILITY_RETRY_COUNT"
    and "GetCombinedStatus g k ref = Inl err"
  shows "poll_status g ref 0 = Some (ClientError err)"
proof -
  have "poll_status g ref 0 = poll_status g ref k"
    using assms(1,2) by (intro poll_status_skip) simp_all
  also have "\<dots> = Some (ClientError err)"
    using assms(2,3) by (subst poll_status.simps) simp
  finally show ?thesis .
qed

lemma poll_status_settled:
  assumes "checks_settled g ref"
  shows "poll_status g ref 0 = None"
proof -
  from assms consider
      (exhausted) "pending_until g ref MERGEABILITY_RETRY_COUNT"
    | (settled) k where "k < MERGEABILITY_RETRY_COUNT" "pending_until g ref k"
        "case GetCombinedStatus g k ref of
           Inl err \<Rightarrow> False
         | Inr status \<Rightarrow> State status \<noteq> Some MERGEABILITY_PENDING_STATE"
    by (auto simp: checks_settled_def)
  then show ?thesis
  proof cases
    case exhausted
    then have "poll_status g ref 0 = poll_status g ref MERGEABILITY_RETRY_COUNT"
      by (intro poll_status_skip) simp_all
    also have "\<dots> = None" by (subst poll_status.simps) simp
    finally show ?thesis .
  next
    case settled
    have "poll_status g ref 0 = poll_status g ref k"
      using settled(1,2) by (intro poll_status_skip) simp_all
    also have "\<dots> = None"
      using settled(1,3) by (subst poll_status.simps) (simp split: sum.splits)
    finally show ?thesis .
  qed
qed

lemma calculating_until_less:
  "calculating_until g q m \<Longrightarrow> j < m \<Longrightarrow>
     \<exists>n. Number (q j) = Some n \<and> PullRequests_Get g j n = Inr (q (Suc j))
         \<and> still_calculating (q (Suc j))"
  by (induction m) (auto simp: less_Suc_eq split: option.splits)

lemma poll_pr_skip:
  assumes "calculating_until g q m" and "j \<le> m" and "m \<le> MERGEABILITY_RETRY_COUNT"
  shows "poll_pr g (q j) j = poll_pr g (q m) m"
  using assms(2)
proof (induction "m - j" arbitrary: j)
  case 0
  then show ?case by simp
next
  case (Suc d)
  then have jm: "j < m" by simp
  then obtain n where "Number (q j) = Some n" "PullRequests_Get g j n = Inr (q (Suc j))"
      "still_calculating (q (Suc j))"
    using calculating_until_less [OF assms(1)] by blast
  moreover have "j < MERGEABILITY_RETRY_COUNT" using jm assms(3) by simp
  ultimately have "poll_pr g (q j) j = poll_pr g (q (Suc j)) (j + 1)"
    by (subst poll_pr.simps) simp
  moreover have "poll_pr g (q (Suc j)) (Suc j) = poll_pr g (q m) m"
    using Suc.hyps(1) [of "Suc j"] Suc.hyps(2) jm by simp
  ultimately show ?case by simp
qed

lemma poll_pr_at:
  assumes "calculating_until g q m" and "m < MERGEABILITY_RETRY_COUNT"
  shows "poll_pr g (q 0) 0 =
           (case Number (q m) of
              None \<Rightarrow> Panics ''nil pointer dereference''
            | Some number \<Rightarrow>
                (case PullRequests_Get g m number of
                   Inl err \<Rightarrow> Returns (Inl (ClientError err))
                 | Inr githubPr' \<Rightarrow>
                     if still_calculating githubPr'
                     then poll_pr g githubPr' (m + 1)
                     else Returns (Inr githubPr')))"
proof -
  have "poll_pr g (q 0) 0 = poll_pr g (q m) m"
    using assms by (intro poll_pr_skip) simp_all
  also have "\<dots> = (case Number (q m) of
              None \<Rightarrow> Panics ''nil pointer dereference''
            | Some number \<Rightarrow>
                (case PullRequests_Get g m number of
                   Inl err \<Rightarrow> Returns (Inl (ClientError err))
                 | Inr githubPr' \<Rightarrow>
                     if still_calculating githubPr'
                     then poll_pr g githubPr' (m + 1)
                     else Returns (Inr githubPr')))"
    using assms(2) by (subst poll_pr.simps) simp
  finally show ?thesis .
qed

lemma poll_pr_exhausted:
  assumes "calculating_until g q MERGEABILITY_RETRY_COUNT"
  shows "poll_pr g (q 0) 0 = Returns (Inr (q MERGEABILITY_RETRY_COUNT))"
    and "still_calculating (q MERGEABILITY_RETRY_COUNT)"
proof -
  have "poll_pr g (q 0) 0 = poll_pr g (q MERGEABILITY_RETRY_COUNT) MERGEABILITY_RETRY_COUNT"
    using assms by (intro poll_pr_skip) simp_all
  also have "\<dots> = Returns (Inr (q MERGEABILITY_RETRY_COUNT))"
    by (subst poll_pr.simps) simp
  finally show "poll_pr g (q 0) 0 = Returns (Inr (q MERGEABILITY_RETRY_COUNT))" .
  show "still_calculating (q MERGEABILITY_RETRY_COUNT)"
    using assms by (simp add: MERGEABILITY_RETRY_COUNT_def numeral_3_eq_3)
qed

lemma poll_status_error_kind: "poll_status g ref j = Some e \<Longrightarrow> \<exists>x. e = ClientError x"
proof (induction g ref j rule: poll_status.induct)
  case (1 g ref retryCount)
  show ?case
  proof (cases "retryCount < MERGEABILITY_RETRY_COUNT")
    case False
    then show ?thesis using "1.prems" by (simp add: poll_status.simps [of g ref retryCount])
  next
    case True
    show ?thesis
    proof (cases "GetCombinedStatus g retryCount ref")
      case (Inl x)
      then show ?thesis using True "1.prems"
        by (auto simp: poll_status.simps [of g ref retryCount])
    next
      case (Inr status)
      then show ?thesis using True "1.prems" "1.IH" [OF True Inr]
        by (simp add: poll_status.simps [of g ref retryCount] split: if_splits)
    qed
  qed
qed

lemma poll_pr_error_kind: "poll_pr g p j = Returns (Inl e) \<Longrightarrow> \<exists>x. e = ClientError x"
proof (induction g p j rule: poll_pr.induct)
  case (1 g githubPr retryCount)
  show ?case
  proof (cases "retryCount < MERGEABILITY_RETRY_COUNT")
    case False
    then show ?thesis using "1.prems" by (simp add: poll_pr.simps [of g githubPr retryCount])
  next
    case True
    show ?thesis
    proof (cases "Number githubPr")
      case None
      then show ?thesis using True "1.prems"
        by (simp add: poll_pr.simps [of g githubPr retryCount])
    next
      case (Some number)
      show ?thesis
      proof (cases "PullRequests_Get g retryCount number")
        case (Inl x)
        then show ?thesis using True Some "1.prems"
          by (auto simp: poll_pr.simps [of g githubPr retryCount])
      next
        case (Inr githubPr')
        then show ?thesis using True Some "1.prems" "1.IH" [OF True Some Inr]
          by (simp add: poll_pr.simps [of g githubPr retryCount] split: if_splits)
      qed
    qed
  qed
qed

lemma poll_status_None:
  assumes "poll_status g ref j = None" and "pending_until g ref j"
    and "j \<le> MERGEABILITY_RETRY_COUNT"
  shows "checks_settled g ref"
  using assms
proof (induction "MERGEABILITY_RETRY_COUNT - j" arbitrary: j)
  case 0
  then have "j = MERGEABILITY_RETRY_COUNT" by simp
  then show ?case using "0.prems"(2) by (simp add: checks_settled_def)
next
  case (Suc d)
  then have lt: "j < MERGEABILITY_RETRY_COUNT" by simp
  show ?case
  proof (cases "GetCombinedStatus g j ref")
    case (Inl x)
    then show ?thesis using lt Suc.prems(1) by (simp add: poll_status.simps [of g ref j])
  next
    case (Inr status)
    show ?thesis
    proof (cases "State status = Some MERGEABILITY_PENDING_STATE")
      case True
      then have "poll_status g ref (Suc j) = None"
        using lt Inr Suc.prems(1) by (simp add: poll_status.simps [of g ref j])
      moreover have "pending_until g ref (Suc j)" using Suc.prems(2) Inr True by simp
      ultimately show ?thesis using Suc.hyps(1) [of "Suc j"] Suc.hyps(2) lt by simp
    next
      case False
      then have "\<exists>k \<in> set [0..<MERGEABILITY_RETRY_COUNT].
            pending_until g ref k
            \<and> (case GetCombinedStatus g k ref of
                  Inl err \<Rightarrow> False
                | Inr status \<Rightarrow> State status \<noteq> Some MERGEABILITY_PENDING_STATE)"
        using lt Inr Suc.prems(2) by (intro bexI [of _ j]) simp_all
      then show ?thesis by (simp add: checks_settled_def)
    qed
  qed
qed

lemma calculating_until_cong:
  "(\<And>i. i \<le> m \<Longrightarrow> q i = q' i) \<Longrightarrow> calculating_until g q m = calculating_until g q' m"
proof (induction m)
  case 0
  then show ?case by simp
next
  case (Suc m)
  have "q m = q' m" "q (Suc m) = q' (Suc m)" using Suc.prems by simp_all
  moreover have "calculating_until g q m = calculating_until g q' m"
    using Suc.prems by (intro Suc.IH) simp
  ultimately show ?case by (simp split: option.splits)
qed

lemma poll_pr_stuck:
  assumes "poll_pr g (q j) j = Returns (Inr r)" and "still_calculating r"
    and "calculating_until g q j" and "j \<le> MERGEABILITY_RETRY_COUNT"
  shows "\<exists>q'. q' 0 = q 0 \<and> calculating_until g q' MERGEABILITY_RETRY_COUNT"
  using assms
proof (induction "MERGEABILITY_RETRY_COUNT - j" arbitrary: j q)
  case 0
  then have "j = MERGEABILITY_RETRY_COUNT" by simp
  then show ?case using "0.prems"(3) by blast
next
  case (Suc d)
  then have lt: "j < MERGEABILITY_RETRY_COUNT" by simp
  note run = Suc.prems(1) [unfolded poll_pr.simps [of g "q j" j]]
  obtain n where n: "Number (q j) = Some n"
    using run lt by (cases "Number (q j)") simp_all
  obtain p1 where p1: "PullRequests_Get g j n = Inr p1"
    using run lt n by (cases "PullRequests_Get g j n") simp_all
  have still: "still_calculating p1"
  proof (rule ccontr)
    assume "\<not> still_calculating p1"
    then have "r = p1" using run lt n p1 by simp
    with \<open>\<not> still_calculating p1\<close> Suc.prems(2) show False by simp
  qed
  then have next_poll: "poll_pr g p1 (Suc j) = Returns (Inr r)"
    using run lt n p1 by simp
  let ?q = "q(Suc j := p1)"
  have "calculating_until g ?q j = calculating_until g q j"
    by (rule calculating_until_cong) simp
  then have c: "calculating_until g ?q (Suc j)"
    using Suc.prems(3) n p1 still by simp
  have "\<exists>q'. q' 0 = ?q 0 \<and> calculating_until g q' MERGEABILITY_RETRY_COUNT"
  proof (rule Suc.hyps(1) [of "Suc j" ?q])
    show "d = MERGEABILITY_RETRY_COUNT - Suc j" using Suc.hyps(2) by simp
    show "poll_pr g (?q (Suc j)) (Suc j) = Returns (Inr r)" using next_poll by simp
    show "still_calculating r" by (rule Suc.prems(2))
    show "calculating_until g ?q (Suc j)" by (rule c)
    show "Suc j \<le> MERGEABILITY_RETRY_COUNT" using lt by simp
  qed
  then show ?case by simp
qed

lemma undetermined_run:
  assumes "GetMergeability g (GitHubPullRequest p) = Returns (Inl MergeabilityUndetermined)"
  shows "\<exists>ref q. q 0 = p \<and> Head_Ref p = Some ref \<and> checks_settled g ref
           \<and> calculating_until g q MERGEABILITY_RETRY_COUNT"
proof -
  obtain ref where ref: "Head_Ref p = Some ref"
    using assms by (cases "Head_Ref p") (simp_all add: GetMergeability_def)
  have ps: "poll_status g ref 0 = None"
  proof (cases "poll_status g ref 0")
    case None
    then show ?thesis .
  next
    case (Some e)
    then obtain x where "e = ClientError x" using poll_status_error_kind by blast
    with Some assms ref show ?thesis by (simp add: GetMergeability_def)
  qed
  then have settled: "checks_settled g ref"
    by (rule poll_status_None) simp_all
  obtain r where r: "poll_pr g p 0 = Returns (Inr r)" "still_calculating r"
  proof (cases "poll_pr g p 0")
    case (Panics msg)
    with assms ref ps show ?thesis by (simp add: GetMergeability_def)
  next
    case (Returns res)
    show ?thesis
    proof (cases res)
      case (Inl e)
      then obtain x where "e = ClientError x" using Returns poll_pr_error_kind by blast
      with Inl Returns assms ref ps show ?thesis by (simp add: GetMergeability_def)
    next
      case (Inr r)
      with Returns assms ref ps have "still_calculating r"
        by (simp add: GetMergeability_def split: if_splits)
      with Inr Returns that show ?thesis by simp
    qed
  qed
  have "\<exists>q'. q' 0 = (\<lambda>j. p) 0 \<and> calculating_until g q' MERGEABILITY_RETRY_COUNT"
    by (rule poll_pr_stuck [of g "\<lambda>j. p" 0 r]) (simp_all add: r)
  then show ?thesis using ref settled by auto
qed

text \<open>
  Claim C6, as amended. Let \<open>q 0\<close> be a GitHub pull request. When its branch name is nil,
  \<^verbatim>\<open>GetMergeability\<close> panics. Otherwise:

  \<^item> when a poll of the combined status fails, all polls before it having said pending,
    it returns the error of that poll;
  \<^item> when the first loop ends without error, and a fetch of the pull request fails, all
    fetches before it having given an unknown or absent merge state, it returns the error
    of that fetch (and it panics when the pull request in hand for that fetch has no
    number);
  \<^item> when the first loop ends without error and a fetch, after such fetches, gives a merge
    state that is neither unknown nor absent, it returns the verdict: true exactly when
    that state is \<^verbatim>\<open>clean\<close>;
  \<^item> it returns the error "unable to determine mergeability" if and only if the first
    loop ends without error and all \<^verbatim>\<open>MERGEABILITY_RETRY_COUNT\<close> fetches succeed and
    give an unknown or absent merge state.

  For a pull request of another type it returns a type error.
\<close>

theorem GetMergeability_verdict:
  "(Head_Ref (q 0) = None \<longrightarrow>
      GetMergeability g (GitHubPullRequest (q 0)) = Panics ''nil pointer dereference'')
   \<and> (Head_Ref (q 0) = Some ref \<and> k < MERGEABILITY_RETRY_COUNT \<and> pending_until g ref k
       \<and> GetCombinedStatus g k ref = Inl err \<longrightarrow>
      GetMergeability g (GitHubPullRequest (q 0)) = Returns (Inl (ClientError err)))
   \<and> (Head_Ref (q 0) = Some ref \<and> checks_settled g ref
       \<and> m < MERGEABILITY_RETRY_COUNT \<and> calculating_until g q m \<longrightarrow>
      (case Number (q m) of
         None \<Rightarrow> GetMergeability g (GitHubPullRequest (q 0)) = Panics ''nil pointer dereference''
       | Some number \<Rightarrow>
           (PullRequests_Get g m number = Inl err \<longrightarrow>
              GetMergeability g (GitHubPullRequest (q 0)) = Returns (Inl (ClientError err)))
           \<and> (PullRequests_Get g m number = Inr (q (Suc m)) \<and> \<not> still_calculating (q (Suc m)) \<longrightarrow>
                GetMergeability g (GitHubPullRequest (q 0))
                  = Returns (Inr (MergeableState (q (Suc m)) = Some MERGEABILITY_CLEAN_STATE)))))
   \<and> (GetMergeability g (GitHubPullRequest (q 0)) = Returns (Inl MergeabilityUndetermined)
      \<longleftrightarrow> (\<exists>ref' q'. q' 0 = q 0 \<and> Head_Ref (q 0) = Some ref' \<and> checks_settled g ref'
                     \<and> calculating_until g q' MERGEABILITY_RETRY_COUNT))
   \<and> GetMergeability g OtherPullRequest = Returns (Inl NotGitHubPullRequest)"
proof (intro conjI impI)
  assume "Head_Ref (q 0) = None"
  then show "GetMergeability g (GitHubPullRequest (q 0)) = Panics ''nil pointer dereference''"
    by (simp add: GetMergeability_def)
next
  assume h: "Head_Ref (q 0) = Some ref \<and> k < MERGEABILITY_RETRY_COUNT \<and> pending_until g ref k
       \<and> GetCombinedStatus g k ref = Inl err"
  then have "poll_status g ref 0 = Some (ClientError err)"
    using poll_status_error by blast
  with h show "GetMergeability g (GitHubPullRequest (q 0)) = Returns (Inl (ClientError err))"
    by (simp add: GetMergeability_def)
next
  assume h: "Head_Ref (q 0) = Some ref \<and> checks_settled g ref
       \<and> m < MERGEABILITY_RETRY_COUNT \<and> calculating_until g q m"
  then have ps: "poll_status g ref 0 = None" using poll_status_settled by blast
  have pp: "poll_pr g (q 0) 0 =
           (case Number (q m) of
              None \<Rightarrow> Panics ''nil pointer dereference''
            | Some number \<Rightarrow>
                (case PullRequests_Get g m number of
                   Inl err \<Rightarrow> Returns (Inl (ClientError err))
                 | Inr githubPr' \<Rightarrow>
                     if still_calculating githubPr'
                     then poll_pr g githubPr' (m + 1)
                     else Returns (Inr githubPr')))"
    using h poll_pr_at by blast
  show "case Number (q m) of
         None \<Rightarrow> GetMergeability g (GitHubPullRequest (q 0)) = Panics ''nil pointer dereference''
       | Some number \<Rightarrow>
           (PullRequests_Get g m number = Inl err \<longrightarrow>
              GetMergeability g (GitHubPullRequest (q 0)) = Returns (Inl (ClientError err)))
           \<and> (PullRequests_Get g m number = Inr (q (Suc m)) \<and> \<not> still_calculating (q (Suc m)) \<longrightarrow>
                GetMergeability g (GitHubPullRequest (q 0))
                  = Returns (Inr (MergeableState (q (Suc m)) = Some MERGEABILITY_CLEAN_STATE)))"
    using h by (simp add: GetMergeability_def ps pp split: option.splits)
next
  show "GetMergeability g (GitHubPullRequest (q 0)) = Returns (Inl MergeabilityUndetermined)
      \<longleftrightarrow> (\<exists>ref' q'. q' 0 = q 0 \<and> Head_Ref (q 0) = Some ref' \<and> checks_settled g ref'
                     \<and> calculating_until g q' MERGEABILITY_RETRY_COUNT)"
  proof
    assume "GetMergeability g (GitHubPullRequest (q 0)) = Returns (Inl MergeabilityUndetermined)"
    then show "\<exists>ref' q'. q' 0 = q 0 \<and> Head_Ref (q 0) = Some ref' \<and> checks_settled g ref'
                     \<and> calculating_until g q' MERGEABILITY_RETRY_COUNT"
      using undetermined_run [of g "q 0"] by blast
  next
    assume "\<exists>ref' q'. q' 0 = q 0 \<and> Head_Ref (q 0) = Some ref' \<and> checks_settled g ref'
                     \<and> calculating_until g q' MERGEABILITY_RETRY_COUNT"
    then obtain ref' q' where r: "q' 0 = q 0" "Head_Ref (q 0) = Some ref'" "checks_settled g ref'"
        "calculating_until g q' MERGEABILITY_RETRY_COUNT"
      by blast
    have "poll_status g ref' 0 = None" using r(3) by (rule poll_status_settled)
    moreover have "poll_pr g (q 0) 0 = Returns (Inr (q' MERGEABILITY_RETRY_COUNT))"
      using poll_pr_exhausted(1) [OF r(4)] r(1) by simp
    moreover have "still_calculating (q' MERGEABILITY_RETRY_COUNT)"
      by (rule poll_pr_exhausted(2) [OF r(4)])
    ultimately show "GetMergeability g (GitHubPullRequest (q 0))
                       = Returns (Inl MergeabilityUndetermined)"
      using r(2) by (simp add: GetMergeability_def)
  qed
next
  show "GetMergeability g OtherPullRequest = Returns (Inl NotGitHubPullRequest)"
    by (simp add: GetMergeability_def)
qed

lemmas poller_eval = MERGEABILITY_RETRY_COUNT_def MERGEABILITY_PENDING_STATE_def
  MERGEABILITY_UNKNOWN_STATE_def MERGEABILITY_CLEAN_STATE_def checks_settled_def
  still_calculating_def numeral_3_eq_3 clean_pr_def unknown_pr_def

theorem GetMergeability_verdict_witness:
  "GetMergeability stuck_client (GitHubPullRequest (clean_pr\<lparr>Head_Ref := None\<rparr>))
     = Panics ''nil pointer dereference''
   \<and> GetMergeability failing_client (GitHubPullRequest clean_pr)
       = Returns (Inl (ClientError ''unable to retrieve ref combined status''))
   \<and> GetMergeability flaky_client (GitHubPullRequest clean_pr)
       = Returns (Inl (ClientError ''status timeout''))
   \<and> GetMergeability stuck_client (GitHubPullRequest (clean_pr\<lparr>Number := None\<rparr>))
       = Panics ''nil pointer dereference''
   \<and> GetMergeability dropping_client (GitHubPullRequest clean_pr)
       = Returns (Inl (ClientError ''fetch timeout''))
   \<and> GetMergeability slow_client (GitHubPullRequest unknown_pr) = Returns (Inr True)
   \<and> GetMergeability stuck_client (GitHubPullRequest unknown_pr)
       = Returns (Inl MergeabilityUndetermined)"
proof -
  have a: "GetMergeability stuck_client (GitHubPullRequest (clean_pr\<lparr>Head_Ref := None\<rparr>))
     = Panics ''nil pointer dereference''"
    using GetMergeability_verdict [where q = "\<lambda>j. clean_pr\<lparr>Head_Ref := None\<rparr>"
        and g = stuck_client, THEN conjunct1]
    by simp
  have b: "GetMergeability failing_client (GitHubPullRequest clean_pr)
       = Returns (Inl (ClientError ''unable to retrieve ref combined status''))"
    using GetMergeability_verdict [where q = "\<lambda>j. clean_pr" and g = failing_client
        and ref = "''123456''" and k = 0 and err = "''unable to retrieve ref combined status''",
        THEN conjunct2, THEN conjunct1]
    by (simp add: failing_client_def poller_eval)
  have c: "GetMergeability flaky_client (GitHubPullRequest clean_pr)
       = Returns (Inl (ClientError ''status timeout''))"
    using GetMergeability_verdict [where q = "\<lambda>j. clean_pr" and g = flaky_client
        and ref = "''123456''" and k = "Suc 0" and err = "''status timeout''",
        THEN conjunct2, THEN conjunct1]
    by (simp add: flaky_client_def poller_eval)
  have d: "GetMergeability stuck_client (GitHubPullRequest (clean_pr\<lparr>Number := None\<rparr>))
       = Panics ''nil pointer dereference''"
    using GetMergeability_verdict [where q = "\<lambda>j. clean_pr\<lparr>Number := None\<rparr>"
        and g = stuck_client and ref = "''123456''" and m = 0,
        THEN conjunct2, THEN conjunct2, THEN conjunct1]
    by (simp add: stuck_client_def poller_eval)
  have e: "GetMergeability dropping_client (GitHubPullRequest clean_pr)
       = Returns (Inl (ClientError ''fetch timeout''))"
    using GetMergeability_verdict [where q = "\<lambda>j. if j = 0 then clean_pr else unknown_pr"
        and g = dropping_client and ref = "''123456''" and m = "Suc 0"
        and err = "''fetch timeout''",
        THEN conjunct2, THEN conjunct2, THEN conjunct1]
    by (simp add: dropping_client_def poller_eval)
  have f: "GetMergeability slow_client (GitHubPullRequest unknown_pr) = Returns (Inr True)"
    using GetMergeability_verdict [where q = "\<lambda>j. if j = 2 then clean_pr else unknown_pr"
        and g = slow_client and ref = "''123456''" and m = "Suc 0",
        THEN conjunct2, THEN conjunct2, THEN conjunct1]
    by (simp add: slow_client_def poller_eval)
  have "\<exists>ref' q'. q' 0 = unknown_pr \<and> Head_Ref unknown_pr = Some ref'
           \<and> checks_settled stuck_client ref'
           \<and> calculating_until stuck_client q' MERGEABILITY_RETRY_COUNT"
    by (rule exI [of _ "''123456''"], rule exI [of _ "\<lambda>j. unknown_pr"])
       (simp add: stuck_client_def poller_eval)
  then have g: "GetMergeability stuck_client (GitHubPullRequest unknown_pr)
       = Returns (Inl MergeabilityUndetermined)"
    using GetMergeability_verdict [where q = "\<lambda>j. unknown_pr" and g = stuck_client,
        THEN conjunct2, THEN conjunct2, THEN conjunct2, THEN conjunct1]
    by simp
  from a b c d e f g show ?thesis by simp
qed

text \<open>
  Claim C6, as stated, fails: the status endpoint fails, so the poller returns an error
  and no verdict, although the merge state of the pull request is \<^verbatim>\<open>clean\<close>, on the
  request it was given and on every fetch.
\<close>

theorem GetMergeability_error_on_clean:
  "GetMergeability failing_client (GitHubPullRequest clean_pr)
     = Returns (Inl (ClientError ''unable to retrieve ref combined status''))
   \<and> MergeableState clean_pr = Some MERGEABILITY_CLEAN_STATE
   \<and> PullRequests_Get failing_client 0 7 = Inr clean_pr"
  by (simp add: GetMergeability_def failing_client_def clean_pr_def MERGEABILITY_RETRY_COUNT_def
      MERGEABILITY_CLEAN_STATE_def poll_status.simps)

end
